theory Spec2Isabelle
  imports Complex_Main "HOL-Library.AList"
begin

section \<open>Python values\<close>

text \<open>
  A Python \<^verbatim>\<open>str\<close> is a sequence of Unicode code points, so it is modelled as a list of
  natural numbers: slicing and \<^verbatim>\<open>len\<close> count code points, and the rupee sign (U+20B9,
  code point 8377) and the black star (U+2605, code point 9733) are single elements.
  ASCII literals of the source are written \<open>U ''...''\<close>.
\<close>

type_synonym ustr = "nat list"

abbreviation (input) U :: "string \<Rightarrow> ustr" where
  "U s \<equiv> map of_char s"

text \<open>
  An exception is its class name and the text that \<^verbatim>\<open>str(e)\<close> gives. Only instances of
  \<^verbatim>\<open>Exception\<close> are modelled, which is what the handlers of the scraper catch.
\<close>

datatype exn = Exception string ustr

definition ValueError :: exn where
  "ValueError = Exception ''ValueError'' []"

fun exn_str :: "exn \<Rightarrow> ustr" where
  "exn_str (Exception cls msg) = msg"

text \<open>
  The values stored in the product dictionary and in the result envelope. The float type
  is a parameter: the arithmetic on it belongs to the interpreter (see \<open>env\<close> below).
  A dictionary is an association list in insertion order, as a Python \<^verbatim>\<open>dict\<close> is;
  its keys here are always ASCII literals of the source.
\<close>

datatype 'f pyval =
    VStr ustr
  | VInt int
  | VFloat 'f
  | VBool bool
  | VList "'f pyval list"
  | VDict "(string \<times> 'f pyval) list"

type_synonym 'f dict = "(string \<times> 'f pyval) list"

definition dict_get :: "'f dict \<Rightarrow> string \<Rightarrow> 'f pyval option" where
  "dict_get d k = map_of d k"

definition dict_set :: "string \<Rightarrow> 'f pyval \<Rightarrow> 'f dict \<Rightarrow> 'f dict" where
  "dict_set k v d = AList.update k v d"

text \<open>\<^verbatim>\<open>d.update({...})\<close>: the pairs are stored one after the other.\<close>

fun dict_update :: "'f dict \<Rightarrow> 'f dict \<Rightarrow> 'f dict" where
  "dict_update d [] = d"
| "dict_update d ((k, v) # kvs) = dict_update (dict_set k v d) kvs"

text \<open>Truth value of \<^verbatim>\<open>d.get(k)\<close>: a missing key gives \<^verbatim>\<open>None\<close>, which is false.\<close>

fun truthy :: "('f::zero) pyval option \<Rightarrow> bool" where
  "truthy None = False"
| "truthy (Some (VStr s)) = (s \<noteq> [])"
| "truthy (Some (VInt i)) = (i \<noteq> 0)"
| "truthy (Some (VFloat x)) = (x \<noteq> 0)"
| "truthy (Some (VBool b)) = b"
| "truthy (Some (VList xs)) = (xs \<noteq> [])"
| "truthy (Some (VDict kvs)) = (kvs \<noteq> [])"

text \<open>\<^verbatim>\<open>d.get(k, dflt)\<close> where the stored value is an integer.\<close>

definition get_int :: "'f dict \<Rightarrow> string \<Rightarrow> int \<Rightarrow> int" where
  "get_int d k dflt = (case dict_get d k of Some (VInt i) \<Rightarrow> i | _ \<Rightarrow> dflt)"

section \<open>String operations\<close>

text \<open>
  Python's white space (\<^verbatim>\<open>str.isspace\<close>, \<^verbatim>\<open>str.strip\<close>, \<^verbatim>\<open>str.split\<close> and the
  class \<^verbatim>\<open>\s\<close> of a \<^verbatim>\<open>str\<close> pattern).
\<close>

definition is_space :: "nat \<Rightarrow> bool" where
  "is_space c = ((9 \<le> c \<and> c \<le> 13) \<or> (28 \<le> c \<and> c \<le> 32) \<or> c = 133 \<or> c = 160
     \<or> c = 5760 \<or> (8192 \<le> c \<and> c \<le> 8202) \<or> c = 8232 \<or> c = 8233 \<or> c = 8239
     \<or> c = 8287 \<or> c = 12288)"

definition strip :: "ustr \<Rightarrow> ustr" where
  "strip s = rev (dropWhile is_space (rev (dropWhile is_space s)))"

definition startswith :: "ustr \<Rightarrow> ustr \<Rightarrow> bool" where
  "startswith s p = (take (length p) s = p)"

text \<open>\<open>contains s p\<close> is \<^verbatim>\<open>p in s\<close>.\<close>

fun contains :: "ustr \<Rightarrow> ustr \<Rightarrow> bool" where
  "contains [] p = (p = [])"
| "contains (c # cs) p = (startswith (c # cs) p \<or> contains cs p)"

text \<open>\<^verbatim>\<open>title.split()\<close>, of which only the first word is used.\<close>

definition first_word :: "ustr \<Rightarrow> ustr option" where
  "first_word s =
     (case takeWhile (\<lambda>c. \<not> is_space c) (dropWhile is_space s) of
        [] \<Rightarrow> None
      | w \<Rightarrow> Some w)"

text \<open>\<^verbatim>\<open>' '.join(tokens)\<close>.\<close>

fun join_space :: "ustr list \<Rightarrow> ustr" where
  "join_space [] = []"
| "join_space [t] = t"
| "join_space (t # ts) = t @ 32 # join_space ts"

text \<open>Decimal representation of a non-negative integer, as an f-string prints it.\<close>

fun digits_of :: "nat \<Rightarrow> ustr" where
  "digits_of n = (if n < 10 then [48 + n] else digits_of (n div 10) @ [48 + n mod 10])"

declare digits_of.simps [simp del]

definition ascii_upper :: "ustr \<Rightarrow> ustr" where
  "ascii_upper s = map (\<lambda>c. if 97 \<le> c \<and> c \<le> 122 then c - 32 else c) s"

definition ascii_lower :: "ustr \<Rightarrow> ustr" where
  "ascii_lower s = map (\<lambda>c. if 65 \<le> c \<and> c \<le> 90 then c + 32 else c) s"

section \<open>The patterns of the scraper\<close>

subsection \<open>\<^verbatim>\<open>re.compile(r'.*word.*', re.I)\<close>\<close>

text \<open>
  A lower-case ASCII letter \<open>p\<close> of a pattern compiled with \<^verbatim>\<open>re.I\<close> accepts itself, its
  upper-case form, and the few other code points whose simple lower-case form it is:
  U+0130 and U+0131 for \<open>i\<close>, U+017F for \<open>s\<close>, U+212A for \<open>k\<close>.
\<close>

definition ci_eq :: "nat \<Rightarrow> nat \<Rightarrow> bool" where
  "ci_eq p c = (c = p \<or> c + 32 = p \<or> (p = 105 \<and> (c = 304 \<or> c = 305))
     \<or> (p = 115 \<and> c = 383) \<or> (p = 107 \<and> c = 8490))"

fun ci_startswith :: "ustr \<Rightarrow> ustr \<Rightarrow> bool" where
  "ci_startswith s [] = True"
| "ci_startswith [] (p # ps) = False"
| "ci_startswith (c # cs) (p # ps) = (ci_eq p c \<and> ci_startswith cs ps)"

text \<open>
  \<open>ci_search w s\<close>: the pattern \<^verbatim>\<open>.*w.*\<close> is found somewhere in \<open>s\<close>. Both \<^verbatim>\<open>.*\<close> may
  be empty, so this is the case exactly when \<open>w\<close> occurs in \<open>s\<close>, letters compared as above.
\<close>

fun ci_search :: "ustr \<Rightarrow> ustr \<Rightarrow> bool" where
  "ci_search w [] = (w = [])"
| "ci_search w (c # cs) = (ci_startswith (c # cs) w \<or> ci_search w cs)"

subsection \<open>The currency pattern: rupee sign, then \<^verbatim>\<open>[\d,]+\<close>\<close>

text \<open>
  In a \<^verbatim>\<open>str\<close> pattern \<^verbatim>\<open>\d\<close> is any Unicode decimal digit, and \<^verbatim>\<open>int\<close> reads the same
  digits. Outside ASCII the decimal digits come in runs of ten; which runs exist depends
  on the interpreter's Unicode tables, so the code points of their zeros are a parameter
  \<open>zs\<close>. The ASCII digits are fixed.
\<close>

definition decimal_of :: "nat list \<Rightarrow> nat \<Rightarrow> nat option" where
  "decimal_of zs c =
     (if 48 \<le> c \<and> c \<le> 57 then Some (c - 48)
      else case List.find (\<lambda>z. 128 \<le> z \<and> z \<le> c \<and> c < z + 10) zs of
             Some z \<Rightarrow> Some (c - z)
           | None \<Rightarrow> None)"

definition is_decimal :: "nat list \<Rightarrow> nat \<Rightarrow> bool" where
  "is_decimal zs c = (decimal_of zs c \<noteq> None)"

definition digit_val :: "nat list \<Rightarrow> nat \<Rightarrow> int" where
  "digit_val zs c = (case decimal_of zs c of Some d \<Rightarrow> int d | None \<Rightarrow> 0)"

text \<open>
  \<^verbatim>\<open>int(s)\<close> for a string \<open>s\<close> without sign, blanks or underscores, which is all the
  scraper passes to it (a run of \<^verbatim>\<open>[\d,]\<close> with the commas removed): the empty string
  raises \<^verbatim>\<open>ValueError\<close>, a string of decimal digits gives its value. The interpreter
  limits the length of the conversion: with more than 640 digits, and more than the limit
  \<open>max_str_digits\<close> when that is not 0 (\<^verbatim>\<open>sys.get_int_max_str_digits()\<close>, 4300 unless
  changed; 0 where there is no limit), \<^verbatim>\<open>int\<close> raises \<^verbatim>\<open>ValueError\<close> too.
\<close>

definition py_int :: "nat \<Rightarrow> nat list \<Rightarrow> ustr \<Rightarrow> exn + int" where
  "py_int max_str_digits zs s =
     (if s = [] \<or> \<not> list_all (is_decimal zs) s then Inl ValueError
      else if 640 < length s \<and> 0 < max_str_digits \<and> max_str_digits < length s
      then Inl ValueError
      else Inr (foldl (\<lambda>a c. 10 * a + digit_val zs c) 0 s))"

definition is_price_char :: "nat list \<Rightarrow> nat \<Rightarrow> bool" where
  "is_price_char zs c = (is_decimal zs c \<or> c = 44)"

text \<open>
  \<^verbatim>\<open>re.search\<close> of the rupee sign followed by the group \<^verbatim>\<open>([\d,]+)\<close>: the leftmost rupee
  sign that is followed by at least one digit or comma; the group is the longest such run.
\<close>

fun price_search :: "nat list \<Rightarrow> ustr \<Rightarrow> ustr option" where
  "price_search zs [] = None"
| "price_search zs (c # cs) =
     (if c = 8377 \<and> takeWhile (is_price_char zs) cs \<noteq> []
      then Some (takeWhile (is_price_char zs) cs)
      else price_search zs cs)"

subsection \<open>The rating pattern \<^verbatim>\<open>[0-9.]+\s*\<close> followed by the star\<close>

definition is_rating_char :: "nat \<Rightarrow> bool" where
  "is_rating_char c = ((48 \<le> c \<and> c \<le> 57) \<or> c = 46)"

text \<open>
  The three classes of the pattern are disjoint, so a match that starts at the head of
  \<open>s\<close> exists exactly when the longest run of \<^verbatim>\<open>[0-9.]\<close> there is not empty and, after
  the white space that follows it, comes the star.
\<close>

definition rating_at :: "ustr \<Rightarrow> bool" where
  "rating_at s =
     (takeWhile is_rating_char s \<noteq> [] \<and>
      (case dropWhile is_space (dropWhile is_rating_char s) of
         [] \<Rightarrow> False
       | c # _ \<Rightarrow> c = 9733))"

fun rating_search :: "ustr \<Rightarrow> bool" where
  "rating_search [] = False"
| "rating_search (c # cs) = (rating_at (c # cs) \<or> rating_search cs)"

text \<open>\<^verbatim>\<open>re.search(r'([0-9.]+)', s)\<close>: the first run of digits and dots of \<open>s\<close>.\<close>

definition number_search :: "ustr \<Rightarrow> ustr option" where
  "number_search s =
     (case takeWhile is_rating_char (dropWhile (\<lambda>c. \<not> is_rating_char c) s) of
        [] \<Rightarrow> None
      | g \<Rightarrow> Some g)"

text \<open>
  Whether \<^verbatim>\<open>float(s)\<close> accepts a non-empty string of ASCII digits and dots: it needs a
  digit and at most one dot (\<^verbatim>\<open>'4.3'\<close>, \<^verbatim>\<open>'5.'\<close> and \<^verbatim>\<open>'.5'\<close> are read, \<^verbatim>\<open>'.'\<close> and
  \<^verbatim>\<open>'1.2.3'\<close> raise \<^verbatim>\<open>ValueError\<close>).
\<close>

definition float_literal :: "ustr \<Rightarrow> bool" where
  "float_literal s =
     (list_ex (\<lambda>c. 48 \<le> c \<and> c \<le> 57) s \<and> length (filter (\<lambda>c. c = 46) s) \<le> 1)"

section \<open>The parsed page\<close>

text \<open>
  What \<^verbatim>\<open>BeautifulSoup(html, 'html.parser')\<close> builds, as far as the scraper looks at it:
  a tag has a name, the tokens of its \<^verbatim>\<open>class\<close> attribute if it has one (the parser
  splits this attribute at white space), its other attributes, and its children; a
  \<^verbatim>\<open>NavigableString\<close> is a piece of text. \<open>Comment\<close> stands for the strings of the
  subclasses that \<^verbatim>\<open>get_text\<close> leaves out (comments, declarations and the like):
  \<^verbatim>\<open>find(text=...)\<close>, \<^verbatim>\<open>.string\<close> and \<^verbatim>\<open>str\<close> treat them as any other string.
\<close>

datatype node =
    Tag ustr "ustr list option" "(ustr \<times> ustr) list" "node list"
  | NavigableString ustr
  | Comment ustr

text \<open>All nodes below a node, in document order.\<close>

fun descendants :: "node \<Rightarrow> node list" where
  "descendants (Tag n c a cs) = concat (map (\<lambda>x. x # descendants x) cs)"
| "descendants (NavigableString s) = []"
| "descendants (Comment s) = []"

text \<open>\<^verbatim>\<open>find_all\<close> and \<^verbatim>\<open>find\<close> with a matcher: all matches below the node, or the first.\<close>

definition find_all :: "(node \<Rightarrow> bool) \<Rightarrow> node \<Rightarrow> node list" where
  "find_all P x = filter P (descendants x)"

definition find_elem :: "(node \<Rightarrow> bool) \<Rightarrow> node \<Rightarrow> node option" where
  "find_elem P x = List.find P (descendants x)"

fun tag_named :: "ustr \<Rightarrow> node \<Rightarrow> bool" where
  "tag_named n (Tag m c a cs) = (m = n)"
| "tag_named n (NavigableString s) = False"
| "tag_named n (Comment s) = False"

text \<open>\<^verbatim>\<open>{'data-id': True}\<close>, \<^verbatim>\<open>href=True\<close>: the attribute is there, whatever its value.\<close>

fun has_attr :: "ustr \<Rightarrow> node \<Rightarrow> bool" where
  "has_attr k (Tag n c a cs) = (map_of a k \<noteq> None)"
| "has_attr k (NavigableString s) = False"
| "has_attr k (Comment s) = False"

fun attr_get :: "ustr \<Rightarrow> node \<Rightarrow> ustr option" where
  "attr_get k (Tag n c a cs) = map_of a k"
| "attr_get k (NavigableString s) = None"
| "attr_get k (Comment s) = None"

text \<open>
  \<^verbatim>\<open>class_=re.compile(r'.*w.*', re.I)\<close>: some token of the class attribute matches, or
  the tokens joined by blanks do.
\<close>

fun class_search :: "ustr \<Rightarrow> node \<Rightarrow> bool" where
  "class_search w (Tag n (Some toks) a cs) =
     (list_ex (ci_search w) toks \<or> ci_search w (join_space toks))"
| "class_search w (Tag n None a cs) = False"
| "class_search w (NavigableString s) = False"
| "class_search w (Comment s) = False"

text \<open>The class attribute as one text, \<^verbatim>\<open>' '.join(tag['class'])\<close>, if the tag has one.\<close>

fun class_text :: "node \<Rightarrow> ustr option" where
  "class_text (Tag n (Some toks) a cs) = Some (join_space toks)"
| "class_text (Tag n None a cs) = None"
| "class_text (NavigableString s) = None"
| "class_text (Comment s) = None"

text \<open>\<^verbatim>\<open>tag.string\<close>: the text of a tag whose only child is a text, or a tag that has one.\<close>

fun tag_string :: "node \<Rightarrow> ustr option" where
  "tag_string (NavigableString s) = Some s"
| "tag_string (Comment s) = Some s"
| "tag_string (Tag n c a [x]) = tag_string x"
| "tag_string (Tag n c a cs) = None"

text \<open>\<^verbatim>\<open>find(name, string=pattern)\<close> accepts a tag by its \<^verbatim>\<open>.string\<close>.\<close>

definition string_matches :: "(ustr \<Rightarrow> bool) \<Rightarrow> node \<Rightarrow> bool" where
  "string_matches R x = (case tag_string x of None \<Rightarrow> False | Some s \<Rightarrow> R s)"

text \<open>\<^verbatim>\<open>find(text=pattern)\<close> accepts strings only, of whatever class.\<close>

fun text_matches :: "(ustr \<Rightarrow> bool) \<Rightarrow> node \<Rightarrow> bool" where
  "text_matches R (NavigableString s) = R s"
| "text_matches R (Comment s) = R s"
| "text_matches R (Tag n c a cs) = False"

text \<open>A tag is always true; a string is true when it is not empty.\<close>

fun elem_truthy :: "node option \<Rightarrow> bool" where
  "elem_truthy None = False"
| "elem_truthy (Some (Tag n c a cs)) = True"
| "elem_truthy (Some (NavigableString s)) = (s \<noteq> [])"
| "elem_truthy (Some (Comment s)) = (s \<noteq> [])"

definition py_or :: "node option \<Rightarrow> node option \<Rightarrow> node option" where
  "py_or a b = (if elem_truthy a then a else b)"

text \<open>\<^verbatim>\<open>xs or ys\<close> on result lists: an empty list is false.\<close>

definition list_or :: "node list \<Rightarrow> node list \<Rightarrow> node list" where
  "list_or xs ys = (if xs \<noteq> [] then xs else ys)"

text \<open>
  \<^verbatim>\<open>get_text(strip=True)\<close>: the texts below the tag, comments and their like passed over,
  each text stripped, the empty ones left out.
\<close>

fun strings_of :: "node list \<Rightarrow> ustr list" where
  "strings_of [] = []"
| "strings_of (NavigableString s # xs) = s # strings_of xs"
| "strings_of (Comment s # xs) = strings_of xs"
| "strings_of (Tag n c a cs # xs) = strings_of xs"

definition get_text_strip :: "node \<Rightarrow> ustr" where
  "get_text_strip x = concat (filter (\<lambda>s. s \<noteq> []) (map strip (strings_of (descendants x))))"

section \<open>The interpreter and the libraries\<close>

text \<open>
  What the scraper takes from outside its own file: the HTML parser, the text that
  \<^verbatim>\<open>str(tag)\<close> gives for a tag, the Unicode tables (decimal digits, \<^verbatim>\<open>lower\<close>,
  \<^verbatim>\<open>upper\<close>), the per-process \<^verbatim>\<open>hash\<close> of a string, float arithmetic,
  the limit of \<^verbatim>\<open>int\<close> on the number of digits, and the answer of the network to a request
  for a page of a query (an exception or a response).
\<close>

record response =
  status_code :: int
  resp_text :: ustr

record 'f env =
  soup :: "ustr \<Rightarrow> exn + node"
  str_of_tag :: "node \<Rightarrow> ustr"
  nd_zeros :: "nat list"
  int_max_str_digits :: nat
  str_lower :: "ustr \<Rightarrow> ustr"
  str_upper :: "ustr \<Rightarrow> ustr"
  py_hash :: "ustr \<Rightarrow> int"
  float_of_str :: "ustr \<Rightarrow> 'f"
  truediv :: "int \<Rightarrow> int \<Rightarrow> 'f"
  fmul :: "'f \<Rightarrow> int \<Rightarrow> 'f"
  py_round :: "'f \<Rightarrow> int"
  requests_get :: "ustr \<Rightarrow> int \<Rightarrow> exn + response"

text \<open>\<^verbatim>\<open>str(elem)\<close>: a text is its own string, a tag is serialised.\<close>

fun py_str :: "'f env \<Rightarrow> node \<Rightarrow> ustr" where
  "py_str env (NavigableString s) = s"
| "py_str env (Comment s) = s"
| "py_str env (Tag n c a cs) = str_of_tag env (Tag n c a cs)"

definition try_bind :: "exn + 'a \<Rightarrow> ('a \<Rightarrow> exn + 'b) \<Rightarrow> exn + 'b" where
  "try_bind r f = (case r of Inl e \<Rightarrow> Inl e | Inr x \<Rightarrow> f x)"

section \<open>\<^verbatim>\<open>get_category_from_query\<close> and \<^verbatim>\<open>extract_brand_from_title\<close>\<close>

definition categories :: "(ustr \<times> ustr list) list" where
  "categories =
     [(U ''mobile'', [U ''phone'', U ''mobile'', U ''smartphone'', U ''redmi'', U ''iphone'',
         U ''samsung'', U ''oneplus'', U ''realme'', U ''vivo'', U ''oppo'']),
      (U ''laptop'', [U ''laptop'', U ''computer'', U ''pc'', U ''macbook'', U ''dell'',
         U ''hp'', U ''lenovo'', U ''asus'']),
      (U ''electronics'', [U ''tv'', U ''television'', U ''headphone'', U ''speaker'',
         U ''camera'', U ''tablet'']),
      (U ''fashion'', [U ''shirt'', U ''clothing'', U ''fashion'', U ''dress'', U ''shoe'',
         U ''watch'', U ''bag'']),
      (U ''home'', [U ''refrigerator'', U ''washing machine'', U ''ac'', U ''microwave'',
         U ''furniture'']),
      (U ''books'', [U ''book'', U ''novel'', U ''textbook'', U ''education''])]"

definition get_category_from_query :: "'f env \<Rightarrow> ustr \<Rightarrow> ustr" where
  "get_category_from_query env query =
     (let query_lower = str_lower env query in
      case List.find (\<lambda>(category, keywords). list_ex (contains query_lower) keywords) categories of
        Some (category, keywords) \<Rightarrow> category
      | None \<Rightarrow> U ''general'')"

definition brands :: "ustr list" where
  "brands = [U ''Samsung'', U ''Apple'', U ''Xiaomi'', U ''OnePlus'', U ''Realme'', U ''Vivo'',
     U ''Oppo'', U ''Nokia'', U ''Motorola'', U ''Sony'', U ''Dell'', U ''HP'', U ''Lenovo'',
     U ''Asus'', U ''Acer'', U ''MSI'']"

definition extract_brand_from_title :: "'f env \<Rightarrow> ustr \<Rightarrow> ustr" where
  "extract_brand_from_title env title =
     (if title = [] then U ''Brand''
      else let title_upper = str_upper env title in
        case List.find (\<lambda>brand. contains title_upper (str_upper env brand)) brands of
          Some brand \<Rightarrow> brand
        | None \<Rightarrow> (case first_word title of Some w \<Rightarrow> w | None \<Rightarrow> U ''Brand''))"

section \<open>\<^verbatim>\<open>extract_product_info\<close>\<close>

subsection \<open>What each block of the function reads from the container\<close>

definition title_elem :: "node \<Rightarrow> node option" where
  "title_elem container =
     py_or (find_elem (\<lambda>x. tag_named (U ''a'') x \<and> class_search (U ''title'') x) container)
    (py_or (find_elem (\<lambda>x. tag_named (U ''div'') x \<and> class_search (U ''title'') x) container)
    (py_or (find_elem (\<lambda>x. tag_named (U ''span'') x \<and> class_search (U ''title'') x) container)
    (py_or (find_elem (tag_named (U ''h3'')) container)
           (find_elem (tag_named (U ''h2'')) container))))"

definition title_field :: "node \<Rightarrow> ustr option" where
  "title_field container =
     (case title_elem container of
        None \<Rightarrow> None
      | Some e \<Rightarrow> if elem_truthy (Some e) then Some (take 100 (get_text_strip e)) else None)"

definition has_price :: "'f env \<Rightarrow> ustr \<Rightarrow> bool" where
  "has_price env s = (price_search (nd_zeros env) s \<noteq> None)"

definition price_elem :: "'f env \<Rightarrow> node \<Rightarrow> node option" where
  "price_elem env container =
     py_or (find_elem (\<lambda>x. tag_named (U ''div'') x \<and> string_matches (has_price env) x) container)
    (py_or (find_elem (\<lambda>x. tag_named (U ''span'') x \<and> string_matches (has_price env) x) container)
           (find_elem (text_matches (has_price env)) container))"

text \<open>
  The three lines shared by the selling price and the MRP: search the text for the
  currency pattern, remove the commas from the group, convert with \<^verbatim>\<open>int\<close>.
\<close>

definition parse_price :: "'f env \<Rightarrow> ustr \<Rightarrow> exn + int option" where
  "parse_price env price_text =
     (case price_search (nd_zeros env) price_text of
        None \<Rightarrow> Inr None
      | Some g \<Rightarrow>
          (case py_int (int_max_str_digits env) (nd_zeros env) (filter (\<lambda>c. c \<noteq> 44) g) of
             Inl e \<Rightarrow> Inl e
           | Inr n \<Rightarrow> Inr (Some n)))"

definition selling_field :: "'f env \<Rightarrow> node \<Rightarrow> exn + int option" where
  "selling_field env container =
     (case price_elem env container of
        None \<Rightarrow> Inr None
      | Some e \<Rightarrow> if elem_truthy (Some e) then parse_price env (py_str env e) else Inr None)"

definition mrp_elem :: "'f env \<Rightarrow> node \<Rightarrow> node option" where
  "mrp_elem env container = find_elem (text_matches (has_price env)) container"

definition mrp_field :: "'f env \<Rightarrow> node \<Rightarrow> exn + int option" where
  "mrp_field env container =
     (case mrp_elem env container of
        None \<Rightarrow> Inr None
      | Some e \<Rightarrow> if elem_truthy (Some e) then parse_price env (py_str env e) else Inr None)"

definition image_url :: "ustr \<Rightarrow> ustr" where
  "image_url img_url =
     (if startswith img_url (U ''//'') then U ''https:'' @ img_url
      else if startswith img_url (U ''/'') then U ''https://www.flipkart.com'' @ img_url
      else img_url)"

definition image_field :: "node \<Rightarrow> ustr option" where
  "image_field container =
     (case find_elem (tag_named (U ''img'')) container of
        None \<Rightarrow> None
      | Some img_elem \<Rightarrow>
          (case attr_get (U ''src'') img_elem of
             None \<Rightarrow> None
           | Some src \<Rightarrow> if src \<noteq> [] then Some (image_url src) else None))"

definition url_field :: "node \<Rightarrow> ustr option" where
  "url_field container =
     (case find_elem (\<lambda>x. tag_named (U ''a'') x \<and> has_attr (U ''href'') x) container of
        None \<Rightarrow> None
      | Some link_elem \<Rightarrow>
          (case attr_get (U ''href'') link_elem of
             None \<Rightarrow> None
           | Some product_url \<Rightarrow>
               Some (if startswith product_url (U ''/'')
                     then U ''https://www.flipkart.com'' @ product_url
                     else product_url)))"

definition rating_field :: "'f env \<Rightarrow> node \<Rightarrow> exn + 'f option" where
  "rating_field env container =
     (case find_elem (text_matches rating_search) container of
        None \<Rightarrow> Inr None
      | Some rating_elem \<Rightarrow>
          if elem_truthy (Some rating_elem) then
            (case number_search (py_str env rating_elem) of
               None \<Rightarrow> Inr None
             | Some g \<Rightarrow> if float_literal g then Inr (Some (float_of_str env g)) else Inl ValueError)
          else Inr None)"

subsection \<open>The blocks, each taking the dictionary built so far\<close>

definition step_title :: "node \<Rightarrow> 'f dict \<Rightarrow> 'f dict" where
  "step_title container product =
     (case title_field container of
        None \<Rightarrow> product
      | Some t \<Rightarrow> dict_set ''title'' (VStr t) product)"

definition step_price :: "'f env \<Rightarrow> node \<Rightarrow> 'f dict \<Rightarrow> exn + 'f dict" where
  "step_price env container product =
     (case selling_field env container of
        Inl e \<Rightarrow> Inl e
      | Inr None \<Rightarrow> Inr product
      | Inr (Some n) \<Rightarrow> Inr (dict_set ''sellingPrice'' (VInt n) product))"

definition step_mrp :: "'f env \<Rightarrow> node \<Rightarrow> 'f dict \<Rightarrow> exn + 'f dict" where
  "step_mrp env container product =
     (case mrp_field env container of
        Inl e \<Rightarrow> Inl e
      | Inr None \<Rightarrow> Inr product
      | Inr (Some mrp_price) \<Rightarrow>
          Inr (if mrp_price > get_int product ''sellingPrice'' 0
               then dict_set ''mrp'' (VInt mrp_price) product
               else product))"

definition step_image :: "node \<Rightarrow> 'f dict \<Rightarrow> 'f dict" where
  "step_image container product =
     (case image_field container of
        None \<Rightarrow> product
      | Some img_url \<Rightarrow> dict_set ''imageUrl'' (VStr img_url) product)"

definition step_url :: "node \<Rightarrow> 'f dict \<Rightarrow> 'f dict" where
  "step_url container product =
     (case url_field container of
        None \<Rightarrow> product
      | Some product_url \<Rightarrow>
          dict_set ''flipkartUrl'' (VStr product_url) (dict_set ''url'' (VStr product_url) product))"

definition step_rating :: "'f env \<Rightarrow> node \<Rightarrow> 'f dict \<Rightarrow> exn + 'f dict" where
  "step_rating env container product =
     (case rating_field env container of
        Inl e \<Rightarrow> Inl e
      | Inr None \<Rightarrow> Inr product
      | Inr (Some r) \<Rightarrow> Inr (dict_set ''rating'' (VFloat r) product))"

definition get_str :: "'f dict \<Rightarrow> string \<Rightarrow> ustr \<Rightarrow> ustr" where
  "get_str d k dflt = (case dict_get d k of Some (VStr s) \<Rightarrow> s | _ \<Rightarrow> dflt)"

definition step_defaults :: "'f env \<Rightarrow> ustr \<Rightarrow> 'f dict \<Rightarrow> 'f dict" where
  "step_defaults env query product =
     dict_update product
       [(''productId'',
           VStr (U ''live_'' @ digits_of (nat \<bar>py_hash env (get_str product ''title'' query)\<bar>))),
        (''description'',
           VStr (U ''Real-time '' @ query
                 @ U '' product from Flipkart with latest pricing and availability.'')),
        (''inStock'', VBool True),
        (''category'', VStr (get_category_from_query env query)),
        (''brand'', VStr (extract_brand_from_title env (get_str product ''title'' []))),
        (''availability'', VStr (U ''In Stock'')),
        (''source'', VStr (U ''flipkart_live''))]"

definition discount_of :: "'f env \<Rightarrow> int \<Rightarrow> int \<Rightarrow> int" where
  "discount_of env mrp selling = py_round env (fmul env (truediv env (mrp - selling) mrp) 100)"

definition step_discount :: "('f::zero) env \<Rightarrow> 'f dict \<Rightarrow> 'f dict" where
  "step_discount env product =
     (if truthy (dict_get product ''mrp'') \<and> truthy (dict_get product ''sellingPrice'')
      then dict_set ''discount''
             (VInt (discount_of env (get_int product ''mrp'' 0) (get_int product ''sellingPrice'' 0)))
             product
      else product)"

subsection \<open>The function\<close>

text \<open>The body of the \<^verbatim>\<open>try\<close>, up to the \<^verbatim>\<open>return\<close>: the dictionary, or the exception.\<close>

definition extract_fields :: "('f::zero) env \<Rightarrow> node \<Rightarrow> ustr \<Rightarrow> exn + 'f dict" where
  "extract_fields env container query =
     try_bind (step_price env container (step_title container [])) (\<lambda>product.
     try_bind (step_mrp env container product) (\<lambda>product.
     try_bind (step_rating env container (step_url container (step_image container product)))
       (\<lambda>product.
     Inr (step_discount env (step_defaults env query product)))))"

definition extract_product_info :: "('f::zero) env \<Rightarrow> node \<Rightarrow> ustr \<Rightarrow> 'f dict option" where
  "extract_product_info env container query =
     (case extract_fields env container query of
        Inl e \<Rightarrow> None
      | Inr product \<Rightarrow>
          if truthy (dict_get product ''title'') \<and> truthy (dict_get product ''sellingPrice'')
          then Some product
          else None)"

section \<open>\<^verbatim>\<open>parse_search_results\<close>\<close>

text \<open>The three searches for containers, the first one that finds something winning.\<close>

definition product_containers :: "node \<Rightarrow> node list" where
  "product_containers page =
     list_or (find_all (\<lambda>x. tag_named (U ''div'') x \<and> has_attr (U ''data-id'') x) page)
    (list_or (find_all (\<lambda>x. tag_named (U ''div'') x \<and> class_search (U ''product'') x) page)
             (find_all (\<lambda>x. tag_named (U ''div'') x \<and> class_search (U ''item'') x) page))"

text \<open>
  The test that decides whether a product is appended:
  \<^verbatim>\<open>product and product.get('title') and product.get('price')\<close>.
\<close>

fun keep_product :: "('f::zero) dict option \<Rightarrow> bool" where
  "keep_product None = False"
| "keep_product (Some product) =
     (product \<noteq> [] \<and> truthy (dict_get product ''title'') \<and> truthy (dict_get product ''price''))"

text \<open>
  The loop over the containers. \<^verbatim>\<open>extract_product_info\<close> catches its own exceptions and
  \<^verbatim>\<open>get\<close> raises none, so the handler inside the loop is never entered. Besides the
  products the loop gives the containers on which it called \<^verbatim>\<open>extract_product_info\<close>, in
  order.
\<close>

fun scan_containers ::
  "('f::zero) env \<Rightarrow> ustr \<Rightarrow> node list \<Rightarrow> 'f dict list \<Rightarrow> node list \<times> 'f dict list" where
  "scan_containers env query [] products = ([], products)"
| "scan_containers env query (container # rest) products =
     (case scan_containers env query rest
             (case extract_product_info env container query of
                None \<Rightarrow> products
              | Some product \<Rightarrow>
                  if keep_product (Some product) then products @ [product] else products) of
        (called, products') \<Rightarrow> (container # called, products'))"

text \<open>
  The body of \<^verbatim>\<open>parse_search_results\<close>: the containers processed and the products. If
  building the soup raises, no container is processed and the handler returns the list as
  it is then: empty.
\<close>

definition parse_page :: "('f::zero) env \<Rightarrow> ustr \<Rightarrow> ustr \<Rightarrow> node list \<times> 'f dict list" where
  "parse_page env html_content query =
     (case soup env html_content of
        Inl e \<Rightarrow> ([], [])
      | Inr page \<Rightarrow> scan_containers env query (take 25 (product_containers page)) [])"

definition parse_search_results :: "('f::zero) env \<Rightarrow> ustr \<Rightarrow> ustr \<Rightarrow> 'f dict list" where
  "parse_search_results env html_content query = snd (parse_page env html_content query)"

definition containers_processed :: "('f::zero) env \<Rightarrow> ustr \<Rightarrow> ustr \<Rightarrow> node list" where
  "containers_processed env html_content query = fst (parse_page env html_content query)"

text \<open>
  The selection of candidates as the specification words it, for comparison with
  \<open>product_containers\<close>: any element qualifies, whatever its tag name.
\<close>

definition find_candidates_spec :: "node \<Rightarrow> node list" where
  "find_candidates_spec page =
     take 25
       (list_or (find_all (has_attr (U ''data-id'')) page)
       (list_or (find_all (class_search (U ''product'')) page)
                (find_all (class_search (U ''item'')) page)))"

section \<open>\<^verbatim>\<open>search_products\<close>\<close>

definition pages_to_scrape :: "int \<Rightarrow> int" where
  "pages_to_scrape max_results = min 3 (max_results div 10 + 1)"

text \<open>
  The loop over the pages. Besides its result (the products collected, or the exception
  that left the loop) it gives the pages for which a request was sent, in order. The pause
  before each request and the lines printed to the error stream are left out.
\<close>

fun fetch_pages ::
  "('f::zero) env \<Rightarrow> ustr \<Rightarrow> int \<Rightarrow> int list \<Rightarrow> 'f dict list \<Rightarrow> int list \<times> (exn + 'f dict list)" where
  "fetch_pages env query max_results [] products = ([], Inr products)"
| "fetch_pages env query max_results (page # rest) products =
     (case requests_get env query page of
        Inl e \<Rightarrow> ([page], Inl e)
      | Inr response \<Rightarrow>
          if status_code response \<noteq> 200 then ([page], Inr products)
          else
            (let products' = products @ parse_search_results env (resp_text response) query in
             if int (length products') \<ge> max_results then ([page], Inr products')
             else (case fetch_pages env query max_results rest products' of
                     (sent, r) \<Rightarrow> (page # sent, r))))"

text \<open>\<^verbatim>\<open>xs[:n]\<close>; a negative \<open>n\<close> counts from the end.\<close>

definition slice_to :: "'a list \<Rightarrow> int \<Rightarrow> 'a list" where
  "slice_to xs n = (if 0 \<le> n then take (nat n) xs else take (nat (int (length xs) + n)) xs)"

definition pages_attempted :: "('f::zero) env \<Rightarrow> ustr \<Rightarrow> int \<Rightarrow> int list" where
  "pages_attempted env query max_results =
     fst (fetch_pages env query max_results [1..pages_to_scrape max_results] [])"

definition search_products :: "('f::zero) env \<Rightarrow> ustr \<Rightarrow> int \<Rightarrow> 'f dict" where
  "search_products env query max_results =
     (case snd (fetch_pages env query max_results [1..pages_to_scrape max_results] []) of
        Inr products \<Rightarrow>
          [(''success'', VBool True),
           (''products'', VList (map VDict (slice_to products max_results))),
           (''total'', VInt (int (length products))),
           (''query'', VStr query),
           (''source'', VStr (U ''flipkart_live''))]
      | Inl e \<Rightarrow>
          [(''success'', VBool False),
           (''products'', VList []),
           (''error'', VStr (exn_str e)),
           (''query'', VStr query)])"

text \<open>A request for the page is answered, and with status 200.\<close>

definition page_ok :: "('f::zero) env \<Rightarrow> ustr \<Rightarrow> int \<Rightarrow> bool" where
  "page_ok env query page =
     (case requests_get env query page of Inl e \<Rightarrow> False | Inr r \<Rightarrow> status_code r = 200)"

section \<open>A concrete environment and sample pages\<close>

text \<open>
  For the worked examples: floats are exact rationals, \<^verbatim>\<open>round\<close> rounds to the nearest
  integer and halves to the even one, \<^verbatim>\<open>lower\<close> and \<^verbatim>\<open>upper\<close> act on ASCII letters, the
  only decimal digits outside ASCII are the Arabic-Indic and the Devanagari ones,
  \<^verbatim>\<open>int\<close> converts 4300 digits at most, and a
  tag is serialised as its opening tag with its attributes, its children and its closing
  tag. The parser and the network are fixed by each example.
\<close>

fun render :: "node \<Rightarrow> ustr" where
  "render (NavigableString s) = s"
| "render (Comment s) = U ''<!--'' @ s @ U ''-->''"
| "render (Tag n c a cs) =
     60 # n
     @ (case c of None \<Rightarrow> [] | Some toks \<Rightarrow> U '' class='' @ 34 # join_space toks @ [34])
     @ concat (map (\<lambda>(k, v). 32 # k @ 61 # 34 # v @ [34]) a)
     @ 62 # concat (map render cs)
     @ 60 # 47 # n @ [62]"

definition rat_of_literal :: "ustr \<Rightarrow> rat" where
  "rat_of_literal s =
     (let whole = takeWhile (\<lambda>c. c \<noteq> 46) s;
          frac = drop 1 (dropWhile (\<lambda>c. c \<noteq> 46) s)
      in of_int (foldl (\<lambda>a c. 10 * a + int (c - 48)) 0 (whole @ frac)) / 10 ^ length frac)"

definition round_half_even :: "rat \<Rightarrow> int" where
  "round_half_even x =
     (let f = \<lfloor>x\<rfloor>; d = x - of_int f
      in if d < 1 / 2 then f else if 1 / 2 < d then f + 1 else if even f then f else f + 1)"

definition sample_env :: "node \<Rightarrow> (int \<Rightarrow> exn + response) \<Rightarrow> rat env" where
  "sample_env page net =
     \<lparr> soup = (\<lambda>html. Inr page),
       str_of_tag = render,
       nd_zeros = [1632, 2406],
       int_max_str_digits = 4300,
       str_lower = ascii_lower,
       str_upper = ascii_upper,
       py_hash = (\<lambda>s. int (sum_list s) - 5000),
       float_of_str = rat_of_literal,
       truediv = (\<lambda>a b. of_int a / of_int b),
       fmul = (\<lambda>x n. x * of_int n),
       py_round = round_half_even,
       requests_get = (\<lambda>query. net) \<rparr>"

text \<open>
  The listing of the specification's scenario: a \<^verbatim>\<open>div\<close> with \<^verbatim>\<open>data-id="1"\<close> holding a
  title link, the selling price, a second and higher price, a rating and an image.
\<close>

definition redmi_container :: node where
  "redmi_container =
     Tag (U ''div'') None [(U ''data-id'', U ''1'')]
       [Tag (U ''a'') (Some [U ''title'']) [(U ''href'', U ''/redmi-note-12/p/itm1'')]
          [NavigableString (U ''Redmi Note 12'')],
        Tag (U ''div'') (Some [U ''_30jeq3'']) [] [NavigableString (8377 # U ''14,999'')],
        Tag (U ''div'') (Some [U ''_3I9_wc'']) [] [NavigableString (8377 # U ''19,999'')],
        Tag (U ''span'') None [] [NavigableString (U ''4.3'' @ [9733])],
        Tag (U ''img'') None [(U ''src'', U ''//img.flipkart.com/x.jpg'')] []]"

definition redmi_page :: node where
  "redmi_page = Tag (U ''[document]'') None [] [redmi_container]"

text \<open>The same listing with a rating text that \<^verbatim>\<open>float\<close> does not accept.\<close>

definition bad_rating_container :: node where
  "bad_rating_container =
     Tag (U ''div'') None [(U ''data-id'', U ''2'')]
       [Tag (U ''a'') (Some [U ''title'']) [(U ''href'', U ''/redmi-note-12/p/itm1'')]
          [NavigableString (U ''Redmi Note 12'')],
        Tag (U ''div'') (Some [U ''_30jeq3'']) [] [NavigableString (8377 # U ''14,999'')],
        Tag (U ''span'') None [] [NavigableString (U ''1.2.3'' @ [9733])],
        Tag (U ''img'') None [(U ''src'', U ''/img/x.png'')] []]"

text \<open>A listing whose higher price comes first, in a \<^verbatim>\<open>span\<close>, before the selling price.\<close>

definition struck_first_container :: node where
  "struck_first_container =
     Tag (U ''div'') None [(U ''data-id'', U ''3'')]
       [Tag (U ''h3'') None [] [NavigableString (U ''Dell Laptop'')],
        Tag (U ''p'') None [] [NavigableString (8377 # U ''19,999'')],
        Tag (U ''div'') None [] [NavigableString (8377 # U ''14,999'')],
        Tag (U ''img'') None [(U ''src'', U ''/img/x.png'')] []]"

text \<open>A listing whose price stands in a paragraph and whose image has an absolute URL.\<close>

definition plain_container :: node where
  "plain_container =
     Tag (U ''div'') None [(U ''data-id'', U ''5'')]
       [Tag (U ''h2'') None [] [NavigableString (U ''Sony TV'')],
        Tag (U ''p'') None [] [NavigableString (8377 # U ''45,000'')],
        Tag (U ''img'') None [(U ''src'', U ''https://cdn.example/x.png'')] []]"

text \<open>A listing whose price text has 4301 digits.\<close>

definition long_price_container :: node where
  "long_price_container =
     Tag (U ''div'') None [(U ''data-id'', U ''6'')]
       [Tag (U ''h3'') None [] [NavigableString (U ''Gold Bar'')],
        Tag (U ''p'') None [] [NavigableString (8377 # replicate 4301 49)]]"

text \<open>A listing with neither a title element nor a price text.\<close>

definition bare_container :: node where
  "bare_container =
     Tag (U ''div'') None [(U ''data-id'', U ''4'')]
       [Tag (U ''p'') None [] [NavigableString (U ''Sponsored'')]]"

text \<open>A page whose only marked element is a list item, beside a \<^verbatim>\<open>div\<close> of class product.\<close>

definition li_page :: node where
  "li_page =
     Tag (U ''[document]'') None []
       [Tag (U ''li'') None [(U ''data-id'', U ''1'')] [NavigableString (U ''first'')],
        Tag (U ''div'') (Some [U ''Product-card'']) [] [NavigableString (U ''second'')]]"

text \<open>A page with thirty marked containers.\<close>

definition crowded_page :: node where
  "crowded_page =
     Tag (U ''[document]'') None []
       (replicate 30 (Tag (U ''div'') None [(U ''data-id'', U ''7'')] []))"

definition ok_response :: response where
  "ok_response = \<lparr> status_code = 200, resp_text = U ''<html></html>'' \<rparr>"

definition not_found_response :: response where
  "not_found_response = \<lparr> status_code = 404, resp_text = [] \<rparr>"

definition connection_error :: exn where
  "connection_error = Exception ''ConnectionError'' (U ''Max retries exceeded'')"

section \<open>The dictionary built by \<^verbatim>\<open>extract_product_info\<close>\<close>

lemma dict_get_Nil [simp]: "dict_get [] k = None"
  by (simp add: dict_get_def)

lemma dict_get_set [simp]:
  "dict_get (dict_set k v d) k' = (if k' = k then Some v else dict_get d k')"
  by (simp add: dict_get_def dict_set_def update_conv')

lemma get_step_title:
  "dict_get (step_title c p) k =
     (if k = ''title'' \<and> title_field c \<noteq> None then map_option VStr (title_field c) else dict_get p k)"
  by (simp add: step_title_def split: option.splits)

lemma get_step_image:
  "dict_get (step_image c p) k =
     (if k = ''imageUrl'' \<and> image_field c \<noteq> None then map_option VStr (image_field c) else dict_get p k)"
  by (simp add: step_image_def split: option.splits)

lemma get_step_url:
  "dict_get (step_url c p) k =
     (if (k = ''url'' \<or> k = ''flipkartUrl'') \<and> url_field c \<noteq> None
      then map_option VStr (url_field c) else dict_get p k)"
  by (simp add: step_url_def split: option.splits)

lemma get_step_defaults:
  "k \<notin> {''productId'', ''description'', ''inStock'', ''category'', ''brand'', ''availability'', ''source''}
   \<Longrightarrow> dict_get (step_defaults env q p) k = dict_get p k"
  by (simp add: step_defaults_def)

lemma step_price_Inr:
  assumes "step_price env c p = Inr p'"
  obtains sp where "selling_field env c = Inr sp"
    and "\<And>k. dict_get p' k = (if k = ''sellingPrice'' \<and> sp \<noteq> None then map_option VInt sp else dict_get p k)"
  using assms by (auto simp: step_price_def split: sum.splits option.splits)

lemma step_mrp_Inr:
  assumes "step_mrp env c p = Inr p'"
  obtains m where "mrp_field env c = Inr m"
    and "\<And>k. dict_get p' k =
           (if k = ''mrp'' \<and> (case m of None \<Rightarrow> False | Some x \<Rightarrow> get_int p ''sellingPrice'' 0 < x)
            then map_option VInt m else dict_get p k)"
  using assms by (auto simp: step_mrp_def split: sum.splits option.splits if_splits)

lemma step_rating_Inr:
  assumes "step_rating env c p = Inr p'"
  obtains r where "rating_field env c = Inr r"
    and "\<And>k. dict_get p' k = (if k = ''rating'' \<and> r \<noteq> None then map_option VFloat r else dict_get p k)"
  using assms by (auto simp: step_rating_def split: sum.splits option.splits)

lemma get_step_discount:
  "dict_get (step_discount env p) k =
     (if k = ''discount'' \<and> truthy (dict_get p ''mrp'') \<and> truthy (dict_get p ''sellingPrice'')
      then Some (VInt (discount_of env (get_int p ''mrp'' 0) (get_int p ''sellingPrice'' 0)))
      else dict_get p k)"
  by (simp add: step_discount_def)

lemma extract_fields_Inr:
  assumes "extract_fields env c q = Inr p"
  obtains p1 p2 p3 where "step_price env c (step_title c []) = Inr p1"
    and "step_mrp env c p1 = Inr p2"
    and "step_rating env c (step_url c (step_image c p2)) = Inr p3"
    and "p = step_discount env (step_defaults env q p3)"
  using assms by (auto simp: extract_fields_def try_bind_def split: sum.splits)

text \<open>The fields of the dictionary that leaves the body of the function.\<close>

lemma extract_fields_lookup:
  assumes "extract_fields env c q = Inr p"
  obtains sp m r where "selling_field env c = Inr sp" and "mrp_field env c = Inr m"
    and "rating_field env c = Inr r"
    and "dict_get p ''title'' = map_option VStr (title_field c)"
    and "dict_get p ''sellingPrice'' = map_option VInt sp"
    and "dict_get p ''mrp'' =
           (case m of None \<Rightarrow> None
            | Some x \<Rightarrow> if (case sp of None \<Rightarrow> 0 | Some s \<Rightarrow> s) < x then Some (VInt x) else None)"
    and "dict_get p ''imageUrl'' = map_option VStr (image_field c)"
    and "dict_get p ''url'' = map_option VStr (url_field c)"
    and "dict_get p ''flipkartUrl'' = map_option VStr (url_field c)"
    and "dict_get p ''rating'' = map_option VFloat r"
    and "dict_get p ''price'' = None"
    and "dict_get p ''discount'' =
           (if truthy (dict_get p ''mrp'') \<and> truthy (dict_get p ''sellingPrice'')
            then Some (VInt (discount_of env (get_int p ''mrp'' 0) (get_int p ''sellingPrice'' 0)))
            else None)"
proof -
  from assms obtain p1 p2 p3 where
    s1: "step_price env c (step_title c []) = Inr p1" and
    s2: "step_mrp env c p1 = Inr p2" and
    s3: "step_rating env c (step_url c (step_image c p2)) = Inr p3" and
    p: "p = step_discount env (step_defaults env q p3)"
    by (rule extract_fields_Inr) blast
  from s1 obtain sp where sp: "selling_field env c = Inr sp"
    and g1: "\<And>k. dict_get p1 k = (if k = ''sellingPrice'' \<and> sp \<noteq> None then map_option VInt sp
                else dict_get (step_title c []) k)"
    by (rule step_price_Inr) blast
  from s2 obtain m where m: "mrp_field env c = Inr m"
    and g2: "\<And>k. dict_get p2 k =
           (if k = ''mrp'' \<and> (case m of None \<Rightarrow> False | Some x \<Rightarrow> get_int p1 ''sellingPrice'' 0 < x)
            then map_option VInt m else dict_get p1 k)"
    by (rule step_mrp_Inr) blast
  from s3 obtain r where r: "rating_field env c = Inr r"
    and g3: "\<And>k. dict_get p3 k = (if k = ''rating'' \<and> r \<noteq> None then map_option VFloat r
                else dict_get (step_url c (step_image c p2)) k)"
    by (rule step_rating_Inr) blast
  have gi: "get_int p1 ''sellingPrice'' 0 = (case sp of None \<Rightarrow> 0 | Some s \<Rightarrow> s)"
    by (simp add: get_int_def g1 get_step_title split: option.splits)
  have t: "dict_get p ''title'' = map_option VStr (title_field c)"
    by (simp add: p get_step_discount get_step_defaults g3 get_step_url get_step_image g2 g1 get_step_title)
  have s: "dict_get p ''sellingPrice'' = map_option VInt sp"
    by (simp add: p get_step_discount get_step_defaults g3 get_step_url get_step_image g2 g1 get_step_title)
  have mm: "dict_get p ''mrp'' =
           (case m of None \<Rightarrow> None
            | Some x \<Rightarrow> if (case sp of None \<Rightarrow> 0 | Some s \<Rightarrow> s) < x then Some (VInt x) else None)"
    by (simp add: p get_step_discount get_step_defaults g3 get_step_url get_step_image g2 g1 gi get_step_title
        split: option.splits)
  have i: "dict_get p ''imageUrl'' = map_option VStr (image_field c)"
    by (simp add: p get_step_discount get_step_defaults g3 get_step_url get_step_image g2 g1 get_step_title)
  have u: "dict_get p ''url'' = map_option VStr (url_field c)"
    by (simp add: p get_step_discount get_step_defaults g3 get_step_url get_step_image g2 g1 get_step_title)
  have f: "dict_get p ''flipkartUrl'' = map_option VStr (url_field c)"
    by (simp add: p get_step_discount get_step_defaults g3 get_step_url get_step_image g2 g1 get_step_title)
  have ra: "dict_get p ''rating'' = map_option VFloat r"
    by (simp add: p get_step_discount get_step_defaults g3 get_step_url get_step_image g2 g1 get_step_title)
  have pr: "dict_get p ''price'' = None"
    by (simp add: p get_step_discount get_step_defaults g3 get_step_url get_step_image g2 g1 get_step_title)
  have d0: "dict_get p3 ''discount'' = None"
    by (simp add: g3 get_step_url get_step_image g2 g1 get_step_title)
  have same: "dict_get p ''mrp'' = dict_get (step_defaults env q p3) ''mrp''"
    "dict_get p ''sellingPrice'' = dict_get (step_defaults env q p3) ''sellingPrice''"
    by (simp_all add: p get_step_discount)
  have di: "dict_get p ''discount'' =
           (if truthy (dict_get p ''mrp'') \<and> truthy (dict_get p ''sellingPrice'')
            then Some (VInt (discount_of env (get_int p ''mrp'' 0) (get_int p ''sellingPrice'' 0)))
            else None)"
    unfolding get_int_def same
    by (simp add: p get_step_discount get_step_defaults d0 get_int_def)
  from sp m r t s mm i u f ra pr di show thesis by (rule that)
qed

lemma extract_fields_raises:
  "(\<exists>e. extract_fields env c q = Inl e) \<longleftrightarrow>
   (\<exists>e. selling_field env c = Inl e \<or> mrp_field env c = Inl e \<or> rating_field env c = Inl e)"
  by (auto simp: extract_fields_def try_bind_def step_price_def step_mrp_def step_rating_def
      split: sum.splits option.splits)

section \<open>Nothing passes the filter of \<^verbatim>\<open>parse_search_results\<close>\<close>

lemma keep_product_extract: "\<not> keep_product (extract_product_info env c q)"
proof (cases "extract_product_info env c q")
  case None
  then show ?thesis by simp
next
  case (Some p)
  then have "extract_fields env c q = Inr p"
    by (auto simp: extract_product_info_def split: sum.splits if_splits)
  then have "dict_get p ''price'' = None"
    by (rule extract_fields_lookup)
  with Some show ?thesis by simp
qed

lemma scan_containers_keeps: "snd (scan_containers env q cs products) = products"
proof (induction cs arbitrary: products)
  case Nil
  show ?case by simp
next
  case (Cons c cs)
  show ?case
  proof (cases "extract_product_info env c q")
    case None
    with Cons [of products] show ?thesis by (simp add: case_prod_beta)
  next
    case (Some p)
    with keep_product_extract [of env c q] have "\<not> keep_product (Some p)" by simp
    with Some Cons [of products] show ?thesis by (simp add: case_prod_beta del: keep_product.simps)
  qed
qed

lemma scan_containers_calls: "fst (scan_containers env q cs products) = cs"
  by (induction cs arbitrary: products) (simp_all add: case_prod_beta)

lemma parse_search_results_Nil: "parse_search_results env html q = []"
  by (simp add: parse_search_results_def parse_page_def scan_containers_keeps split: sum.splits)

lemma fetch_pages_products:
  "snd (fetch_pages env q m pages products) = Inr ps \<Longrightarrow> ps = products"
proof (induction pages arbitrary: products)
  case Nil
  then show ?case by simp
next
  case (Cons page rest)
  then show ?case
    by (auto simp: parse_search_results_Nil Let_def split: sum.splits if_splits prod.splits)
qed

text \<open>
  Claim C1. For every page and every query \<^verbatim>\<open>parse_search_results\<close> returns the empty list:
  the filter asks for a true value under the key \<^verbatim>\<open>price\<close>, and \<^verbatim>\<open>extract_product_info\<close>
  stores the price under \<^verbatim>\<open>sellingPrice\<close> and never under \<^verbatim>\<open>price\<close>. Hence every success
  envelope of \<^verbatim>\<open>search_products\<close> has an empty product list and a total of 0.
\<close>

theorem parse_search_results_always_empty:
  "parse_search_results env html_content query = [] \<and>
   (dict_get (search_products env query max_results) ''success'' = Some (VBool True) \<longrightarrow>
      search_products env query max_results =
        [(''success'', VBool True), (''products'', VList []), (''total'', VInt 0),
         (''query'', VStr query), (''source'', VStr (U ''flipkart_live''))])"
proof
  show "parse_search_results env html_content query = []"
    by (rule parse_search_results_Nil)
next
  show "dict_get (search_products env query max_results) ''success'' = Some (VBool True) \<longrightarrow>
      search_products env query max_results =
        [(''success'', VBool True), (''products'', VList []), (''total'', VInt 0),
         (''query'', VStr query), (''source'', VStr (U ''flipkart_live''))]"
  proof (cases "snd (fetch_pages env query max_results [1..pages_to_scrape max_results] [])")
    case (Inl e)
    then show ?thesis by (simp add: search_products_def dict_get_def)
  next
    case (Inr ps)
    then have "ps = []" by (rule fetch_pages_products)
    with Inr show ?thesis by (simp add: search_products_def slice_to_def)
  qed
qed

text \<open>
  An instance: the parser returns the page with the listing of the specification's
  scenario and every request answers with status 200.
\<close>

theorem parse_search_results_always_empty_witness:
  "parse_search_results (sample_env redmi_page (\<lambda>page. Inr ok_response)) (U ''<html></html>'')
       (U ''redmi phone'') = [] \<and>
   dict_get (search_products (sample_env redmi_page (\<lambda>page. Inr ok_response)) (U ''redmi phone'') 25)
       ''success'' = Some (VBool True) \<and>
   search_products (sample_env redmi_page (\<lambda>page. Inr ok_response)) (U ''redmi phone'') 25 =
     [(''success'', VBool True), (''products'', VList []), (''total'', VInt 0),
      (''query'', VStr (U ''redmi phone'')), (''source'', VStr (U ''flipkart_live''))]"
proof -
  have h: "dict_get (search_products (sample_env redmi_page (\<lambda>page. Inr ok_response)) (U ''redmi phone'') 25)
       ''success'' = Some (VBool True)"
    by (simp add: search_products_def pages_to_scrape_def parse_search_results_Nil sample_env_def
        ok_response_def dict_get_def upto.simps)
  show ?thesis
    using h parse_search_results_always_empty
      [of "sample_env redmi_page (\<lambda>page. Inr ok_response)" "U ''<html></html>''" "U ''redmi phone''" 25]
    by simp
qed

section \<open>What the blocks read from the sample listings\<close>

lemmas dom_eval = find_elem_def py_or_def string_matches_def get_text_strip_def strip_def
  is_space_def startswith_def ci_eq_def
lemmas price_eval = has_price_def is_price_char_def is_decimal_def decimal_of_def digit_val_def
  py_int_def parse_price_def price_elem_def selling_field_def mrp_elem_def mrp_field_def
lemmas rating_eval = rating_field_def rating_at_def is_rating_char_def number_search_def
  float_literal_def

lemma sample_env_sel [simp]:
  "str_of_tag (sample_env pg net) = render"
  "nd_zeros (sample_env pg net) = [1632, 2406]"
  "int_max_str_digits (sample_env pg net) = 4300"
  "float_of_str (sample_env pg net) = rat_of_literal"
  "soup (sample_env pg net) = (\<lambda>html. Inr pg)"
  "requests_get (sample_env pg net) = (\<lambda>query. net)"
  by (simp_all add: sample_env_def)

lemma redmi_fields:
  "title_field redmi_container = Some (U ''Redmi Note 12'')"
  "selling_field (sample_env pg net) redmi_container = Inr (Some 14999)"
  "mrp_field (sample_env pg net) redmi_container = Inr (Some 14999)"
  "rating_field (sample_env pg net) redmi_container = Inr (Some (43 / 10))"
  "image_field redmi_container = Some (U ''https://img.flipkart.com/x.jpg'')"
  by (simp_all add: redmi_container_def title_field_def title_elem_def dom_eval price_eval rating_eval
      rat_of_literal_def image_field_def image_url_def)

lemma struck_first_fields:
  "title_field struck_first_container = Some (U ''Dell Laptop'')"
  "selling_field (sample_env pg net) struck_first_container = Inr (Some 14999)"
  "mrp_field (sample_env pg net) struck_first_container = Inr (Some 19999)"
  "rating_field (sample_env pg net) struck_first_container = Inr None"
  by (simp_all add: struck_first_container_def title_field_def title_elem_def dom_eval price_eval rating_eval
      rat_of_literal_def)

lemma plain_fields:
  "title_field plain_container = Some (U ''Sony TV'')"
  "selling_field (sample_env pg net) plain_container = Inr (Some 45000)"
  "mrp_field (sample_env pg net) plain_container = Inr (Some 45000)"
  "rating_field (sample_env pg net) plain_container = Inr None"
  by (simp_all add: plain_container_def title_field_def title_elem_def dom_eval price_eval rating_eval
      rat_of_literal_def)

lemma bad_rating_fields:
  "title_field bad_rating_container = Some (U ''Redmi Note 12'')"
  "selling_field (sample_env pg net) bad_rating_container = Inr (Some 14999)"
  "mrp_field (sample_env pg net) bad_rating_container = Inr (Some 14999)"
  "rating_field (sample_env pg net) bad_rating_container = Inl ValueError"
  "image_field bad_rating_container = Some (U ''https://www.flipkart.com/img/x.png'')"
  "url_field bad_rating_container = Some (U ''https://www.flipkart.com/redmi-note-12/p/itm1'')"
  by (simp_all add: bad_rating_container_def title_field_def title_elem_def dom_eval price_eval rating_eval
      rat_of_literal_def image_field_def image_url_def url_field_def)

lemma bare_fields:
  "title_field bare_container = None"
  "\<not> list_ex (text_matches (has_price (sample_env pg net))) (descendants bare_container)"
  by (simp_all add: bare_container_def title_field_def title_elem_def dom_eval price_eval)

section \<open>The validity gate\<close>

lemma descendants_trans:
  "x \<in> set (descendants c) \<Longrightarrow> y \<in> set (descendants x) \<Longrightarrow> y \<in> set (descendants c)"
proof (induction c rule: descendants.induct)
  case (1 n cl a cs)
  from "1.prems"(1) obtain z where z: "z \<in> set cs" and x: "x = z \<or> x \<in> set (descendants z)"
    by auto
  from x have "y \<in> set (descendants z)"
  proof
    assume "x = z"
    with "1.prems"(2) show ?thesis by simp
  next
    assume "x \<in> set (descendants z)"
    from "1.IH" [OF z this "1.prems"(2)] show ?thesis .
  qed
  with z show ?case by auto
next
  case (2 s)
  then show ?case by simp
next
  case (3 s)
  then show ?case by simp
qed

lemma tag_string_descendant:
  "tag_string x = Some s \<Longrightarrow> R s \<Longrightarrow>
     text_matches R x \<or> list_ex (text_matches R) (descendants x)"
  by (induction x rule: tag_string.induct) auto

lemma find_elem_Some:
  "find_elem P c = Some x \<Longrightarrow> x \<in> set (descendants c) \<and> P x"
  by (auto simp: find_elem_def find_Some_iff)

lemma find_elem_None:
  "find_elem P c = None \<longleftrightarrow> \<not> list_ex P (descendants c)"
  by (auto simp: find_elem_def find_None_iff list_ex_iff)

lemma py_or_None: "py_or a b = None \<longleftrightarrow> (a = None \<or> \<not> elem_truthy a) \<and> b = None"
  by (cases a) (auto simp: py_or_def)

lemma no_price_text_no_price_elem:
  assumes "\<not> list_ex (text_matches (has_price env)) (descendants c)"
  shows "price_elem env c = None"
proof -
  have no_tag: "find_elem (\<lambda>x. tag_named nm x \<and> string_matches (has_price env) x) c = None" for nm
  proof (rule ccontr)
    assume "find_elem (\<lambda>x. tag_named nm x \<and> string_matches (has_price env) x) c \<noteq> None"
    then obtain x where "find_elem (\<lambda>x. tag_named nm x \<and> string_matches (has_price env) x) c = Some x"
      by auto
    then have x: "x \<in> set (descendants c)" and t: "tag_named nm x"
      and sm: "string_matches (has_price env) x"
      using find_elem_Some by fastforce+
    from sm obtain s where s: "tag_string x = Some s" and hp: "has_price env s"
      by (auto simp: string_matches_def split: option.splits)
    from t have "\<not> text_matches (has_price env) x" by (cases x) auto
    with s hp have "list_ex (text_matches (has_price env)) (descendants x)"
      using tag_string_descendant [of x s "has_price env"] by blast
    then obtain y where y: "y \<in> set (descendants x)" "text_matches (has_price env) y"
      by (auto simp: list_ex_iff)
    from x y(1) have "y \<in> set (descendants c)"
      by (rule descendants_trans)
    with y(2) have "list_ex (text_matches (has_price env)) (descendants c)"
      by (auto simp: list_ex_iff)
    with assms show False by simp
  qed
  from assms have "find_elem (text_matches (has_price env)) c = None"
    by (simp add: find_elem_None)
  with no_tag show ?thesis
    by (simp add: price_elem_def py_or_def)
qed

lemma foldl_digits_nonneg:
  "0 \<le> a \<Longrightarrow> 0 \<le> foldl (\<lambda>a c. 10 * a + digit_val zs c) a s"
proof (induction s arbitrary: a)
  case Nil
  then show ?case by simp
next
  case (Cons c s)
  have "0 \<le> digit_val zs c" by (simp add: digit_val_def split: option.splits)
  with Cons.prems have "0 \<le> 10 * a + digit_val zs c" by simp
  then show ?case using Cons.IH by simp
qed

lemma parse_price_nonneg: "parse_price env s = Inr (Some n) \<Longrightarrow> 0 \<le> n"
  by (auto simp: parse_price_def py_int_def foldl_digits_nonneg split: option.splits sum.splits if_splits)

lemma selling_field_nonneg: "selling_field env c = Inr (Some n) \<Longrightarrow> 0 \<le> n"
  by (auto simp: selling_field_def parse_price_nonneg split: option.splits if_splits)

lemma extract_product_info_Some:
  assumes "extract_product_info env c q = Some p"
  shows "extract_fields env c q = Inr p"
    and "truthy (dict_get p ''title'')" and "truthy (dict_get p ''sellingPrice'')"
  using assms by (auto simp: extract_product_info_def split: sum.splits if_splits)

text \<open>
  Claim C2. \<^verbatim>\<open>extract_product_info\<close> returns a record only if both \<^verbatim>\<open>title\<close> and
  \<^verbatim>\<open>sellingPrice\<close> ended up stored and true: the title is the non-empty text of the title
  element, the selling price a non-zero integer read from the price element. A container
  that lacks a title text (no title element, or one with empty text) or that has no text
  with the currency pattern, and so in particular one that lacks both, gives \<^verbatim>\<open>None\<close>.
\<close>

theorem extract_requires_title_and_price:
  "(extract_product_info env container query = Some product \<longrightarrow>
      truthy (dict_get product ''title'') \<and> truthy (dict_get product ''sellingPrice'') \<and>
      (\<exists>t. t \<noteq> [] \<and> title_field container = Some t \<and> dict_get product ''title'' = Some (VStr t)) \<and>
      (\<exists>n. n \<noteq> 0 \<and> selling_field env container = Inr (Some n) \<and>
           dict_get product ''sellingPrice'' = Some (VInt n))) \<and>
   ((title_field container = None \<or> title_field container = Some []) \<or>
    \<not> list_ex (text_matches (has_price env)) (descendants container) \<longrightarrow>
      extract_product_info env container query = None)"
proof (intro conjI impI)
  assume some: "extract_product_info env container query = Some product"
  then show tt: "truthy (dict_get product ''title'')"
    and ts: "truthy (dict_get product ''sellingPrice'')"
    by (rule extract_product_info_Some)+
  from some have "extract_fields env container query = Inr product"
    by (rule extract_product_info_Some)
  then obtain sp where sp: "selling_field env container = Inr sp"
    and t: "dict_get product ''title'' = map_option VStr (title_field container)"
    and s: "dict_get product ''sellingPrice'' = map_option VInt sp"
    by (rule extract_fields_lookup)
  from tt t show "\<exists>t. t \<noteq> [] \<and> title_field container = Some t \<and> dict_get product ''title'' = Some (VStr t)"
    by (cases "title_field container") auto
  from ts s sp show "\<exists>n. n \<noteq> 0 \<and> selling_field env container = Inr (Some n) \<and>
           dict_get product ''sellingPrice'' = Some (VInt n)"
    by (cases sp) auto
next
  assume lack: "(title_field container = None \<or> title_field container = Some []) \<or>
    \<not> list_ex (text_matches (has_price env)) (descendants container)"
  show "extract_product_info env container query = None"
  proof (rule ccontr)
    assume "extract_product_info env container query \<noteq> None"
    then obtain p where some: "extract_product_info env container query = Some p" by auto
    then have ef: "extract_fields env container query = Inr p"
      and tt: "truthy (dict_get p ''title'')" and ts: "truthy (dict_get p ''sellingPrice'')"
      by (rule extract_product_info_Some)+
    from ef obtain sp where sp: "selling_field env container = Inr sp"
      and t: "dict_get p ''title'' = map_option VStr (title_field container)"
      and s: "dict_get p ''sellingPrice'' = map_option VInt sp"
      by (rule extract_fields_lookup)
    from tt t have nt: "title_field container \<noteq> None \<and> title_field container \<noteq> Some []"
      by (cases "title_field container") auto
    from ts s have "sp \<noteq> None" by (cases sp) auto
    with sp have pe: "price_elem env container \<noteq> None"
      by (auto simp: selling_field_def split: option.splits)
    have "list_ex (text_matches (has_price env)) (descendants container)"
    proof (rule ccontr)
      assume "\<not> list_ex (text_matches (has_price env)) (descendants container)"
      then have "price_elem env container = None" by (rule no_price_text_no_price_elem)
      with pe show False by simp
    qed
    with nt lack show False by simp
  qed
qed

lemma extract_fields_returns:
  assumes "selling_field env c = Inr sp" and "mrp_field env c = Inr m" and "rating_field env c = Inr r"
  shows "\<exists>p. extract_fields env c q = Inr p"
proof (cases "extract_fields env c q")
  case (Inl e)
  then have "\<exists>e. selling_field env c = Inl e \<or> mrp_field env c = Inl e \<or> rating_field env c = Inl e"
    using extract_fields_raises [of env c q] by blast
  with assms show ?thesis by simp
next
  case (Inr p)
  then show ?thesis by blast
qed

lemma extract_product_info_returns:
  assumes sp: "selling_field env c = Inr (Some n)" and n: "n \<noteq> 0"
    and m: "mrp_field env c = Inr m" and r: "rating_field env c = Inr r"
    and t: "title_field c = Some t" and tn: "t \<noteq> []"
  shows "\<exists>p. extract_product_info env c q = Some p"
proof -
  from sp m r obtain p where p: "extract_fields env c q = Inr p"
    using extract_fields_returns by blast
  then obtain sp' where "selling_field env c = Inr sp'"
    and "dict_get p ''title'' = map_option VStr (title_field c)"
    and "dict_get p ''sellingPrice'' = map_option VInt sp'"
    by (rule extract_fields_lookup)
  with sp t n tn have "truthy (dict_get p ''title'')" and "truthy (dict_get p ''sellingPrice'')"
    by simp_all
  with p show ?thesis by (simp add: extract_product_info_def)
qed

theorem extract_requires_title_and_price_witness:
  "map_option (\<lambda>p. (dict_get p ''title'', dict_get p ''sellingPrice''))
     (extract_product_info (sample_env redmi_page (\<lambda>page. Inr ok_response)) redmi_container
        (U ''redmi phone''))
     = Some (Some (VStr (U ''Redmi Note 12'')), Some (VInt 14999)) \<and>
   title_field bare_container = None \<and>
   extract_product_info (sample_env redmi_page (\<lambda>page. Inr ok_response)) bare_container
     (U ''redmi phone'') = None"
proof -
  obtain p where p: "extract_product_info (sample_env redmi_page (\<lambda>page. Inr ok_response))
      redmi_container (U ''redmi phone'') = Some p"
    using extract_product_info_returns [OF redmi_fields(2) _ redmi_fields(3) redmi_fields(4) redmi_fields(1)]
    by fastforce
  show ?thesis
    using p bare_fields
      extract_requires_title_and_price
        [of "sample_env redmi_page (\<lambda>page. Inr ok_response)" redmi_container "U ''redmi phone''" p]
      extract_requires_title_and_price
        [of "sample_env redmi_page (\<lambda>page. Inr ok_response)" bare_container "U ''redmi phone''"]
    by (auto simp: redmi_fields)
qed

section \<open>The discount\<close>

text \<open>
  Claim C8. In every record that \<^verbatim>\<open>extract_product_info\<close> returns, \<^verbatim>\<open>discount\<close> is present
  if and only if both \<^verbatim>\<open>mrp\<close> and \<^verbatim>\<open>sellingPrice\<close> are present, and then it is
  \<^verbatim>\<open>round((mrp - sellingPrice) / mrp * 100)\<close>, computed with the interpreter's float
  division, multiplication and rounding.
\<close>

theorem discount_present_iff_both_prices:
  assumes "extract_product_info env container query = Some product"
  shows "(dict_get product ''discount'' \<noteq> None \<longleftrightarrow>
            dict_get product ''mrp'' \<noteq> None \<and> dict_get product ''sellingPrice'' \<noteq> None) \<and>
         (dict_get product ''discount'' \<noteq> None \<longrightarrow>
            (\<exists>mrp selling. dict_get product ''mrp'' = Some (VInt mrp) \<and>
               dict_get product ''sellingPrice'' = Some (VInt selling) \<and> mrp \<noteq> 0 \<and>
               dict_get product ''discount'' =
                 Some (VInt (py_round env (fmul env (truediv env (mrp - selling) mrp) 100)))))"
proof -
  from assms have ef: "extract_fields env container query = Inr product"
    and ts: "truthy (dict_get product ''sellingPrice'')"
    by (rule extract_product_info_Some)+
  from ef obtain sp m where sp: "selling_field env container = Inr sp"
    and s: "dict_get product ''sellingPrice'' = map_option VInt sp"
    and mm: "dict_get product ''mrp'' =
           (case m of None \<Rightarrow> None
            | Some x \<Rightarrow> if (case sp of None \<Rightarrow> 0 | Some s \<Rightarrow> s) < x then Some (VInt x) else None)"
    and d: "dict_get product ''discount'' =
           (if truthy (dict_get product ''mrp'') \<and> truthy (dict_get product ''sellingPrice'')
            then Some (VInt (discount_of env (get_int product ''mrp'' 0) (get_int product ''sellingPrice'' 0)))
            else None)"
    by (rule extract_fields_lookup)
  from ts s obtain n where n: "sp = Some n" "n \<noteq> 0" by (cases sp) auto
  with sp have "0 \<le> n" using selling_field_nonneg by blast
  with n have pos: "0 < n" by simp
  show ?thesis
  proof (cases "dict_get product ''mrp''")
    case None
    with d show ?thesis by simp
  next
    case (Some v)
    with mm n obtain x where x: "m = Some x" "n < x" "v = VInt x"
      by (cases m) (auto split: if_splits)
    with pos Some have tm: "truthy (dict_get product ''mrp'')" by simp
    from Some x s n have gi: "get_int product ''mrp'' 0 = x" "get_int product ''sellingPrice'' 0 = n"
      by (simp_all add: get_int_def)
    from d tm ts gi have "dict_get product ''discount'' =
        Some (VInt (py_round env (fmul env (truediv env (x - n) x) 100)))"
      by (simp add: discount_of_def)
    with Some x s n pos show ?thesis by auto
  qed
qed

lemma sample_discount: "round_half_even (rat_of_int (19999 - 14999) / rat_of_int 19999 * rat_of_int 100) = 25"
proof -
  have f: "\<lfloor>500000 / 19999 :: rat\<rfloor> = 25"
    by (simp add: floor_eq_iff)
  show ?thesis
    by (simp add: round_half_even_def Let_def f)
qed

theorem discount_present_iff_both_prices_witness:
  "map_option (\<lambda>p. (dict_get p ''mrp'', dict_get p ''sellingPrice'', dict_get p ''discount''))
     (extract_product_info (sample_env redmi_page (\<lambda>page. Inr ok_response)) struck_first_container
        (U ''dell laptop''))
     = Some (Some (VInt 19999), Some (VInt 14999), Some (VInt 25))"
proof -
  let ?E = "sample_env redmi_page (\<lambda>page. Inr ok_response)"
  obtain p where p: "extract_product_info ?E struck_first_container (U ''dell laptop'') = Some p"
    using extract_product_info_returns
      [OF struck_first_fields(2) _ struck_first_fields(3) struck_first_fields(4) struck_first_fields(1)]
    by fastforce
  then have "extract_fields ?E struck_first_container (U ''dell laptop'') = Inr p"
    by (rule extract_product_info_Some)
  then obtain sp m where "selling_field ?E struck_first_container = Inr sp"
    and "mrp_field ?E struck_first_container = Inr m"
    and "dict_get p ''sellingPrice'' = map_option VInt sp"
    and "dict_get p ''mrp'' =
           (case m of None \<Rightarrow> None
            | Some x \<Rightarrow> if (case sp of None \<Rightarrow> 0 | Some s \<Rightarrow> s) < x then Some (VInt x) else None)"
    by (rule extract_fields_lookup)
  then have s: "dict_get p ''sellingPrice'' = Some (VInt 14999)"
    and m: "dict_get p ''mrp'' = Some (VInt 19999)"
    by (auto simp: struck_first_fields)
  have r: "py_round ?E = round_half_even" "fmul ?E = (\<lambda>x n. x * rat_of_int n)"
    "truediv ?E = (\<lambda>a b. rat_of_int a / rat_of_int b)"
    by (simp_all add: sample_env_def)
  from discount_present_iff_both_prices [OF p] s m
  have "dict_get p ''discount'' = Some (VInt 25)"
    using sample_discount by (auto simp: r)
  with p s m show ?thesis by simp
qed

section \<open>The image URL\<close>

text \<open>
  Claim C9. When the first \<^verbatim>\<open>img\<close> element of the container has a non-empty \<^verbatim>\<open>src\<close>, the
  stored \<^verbatim>\<open>imageUrl\<close> is that source rewritten: a source \<^verbatim>\<open>//rest\<close> becomes
  \<^verbatim>\<open>https://rest\<close>, any other source \<^verbatim>\<open>/rest\<close> becomes \<^verbatim>\<open>https://www.flipkart.com/rest\<close>,
  and a source that does not begin with a slash is stored unchanged.
\<close>

theorem image_url_rewritten:
  assumes "extract_product_info env container query = Some product"
    and "find_elem (tag_named (U ''img'')) container = Some img_elem"
    and "attr_get (U ''src'') img_elem = Some src" and "src \<noteq> []"
  shows "(\<forall>rest. src = U ''//'' @ rest \<longrightarrow>
            dict_get product ''imageUrl'' = Some (VStr (U ''https://'' @ rest))) \<and>
         (\<forall>rest. src = U ''/'' @ rest \<and> take 1 rest \<noteq> U ''/'' \<longrightarrow>
            dict_get product ''imageUrl'' = Some (VStr (U ''https://www.flipkart.com/'' @ rest))) \<and>
         (take 1 src \<noteq> U ''/'' \<longrightarrow> dict_get product ''imageUrl'' = Some (VStr src))"
proof -
  from assms(1) have "extract_fields env container query = Inr product"
    by (rule extract_product_info_Some)
  then have "dict_get product ''imageUrl'' = map_option VStr (image_field container)"
    by (rule extract_fields_lookup)
  with assms(2-4) have i: "dict_get product ''imageUrl'' = Some (VStr (image_url src))"
    by (simp add: image_field_def)
  have a: "image_url (U ''//'' @ rest) = U ''https://'' @ rest" for rest
    by (simp add: image_url_def startswith_def)
  have b: "take 1 rest \<noteq> U ''/'' \<Longrightarrow> image_url (U ''/'' @ rest) = U ''https://www.flipkart.com/'' @ rest"
    for rest
    by (cases rest) (simp_all add: image_url_def startswith_def)
  have c: "take 1 src \<noteq> U ''/'' \<Longrightarrow> image_url src = src"
    by (cases src; cases "tl src") (auto simp: image_url_def startswith_def)
  from i a b c show ?thesis by auto
qed

lemma sample_images:
  "find_elem (tag_named (U ''img'')) redmi_container =
     Some (Tag (U ''img'') None [(U ''src'', U ''//img.flipkart.com/x.jpg'')] [])"
  "find_elem (tag_named (U ''img'')) struck_first_container =
     Some (Tag (U ''img'') None [(U ''src'', U ''/img/x.png'')] [])"
  "find_elem (tag_named (U ''img'')) plain_container =
     Some (Tag (U ''img'') None [(U ''src'', U ''https://cdn.example/x.png'')] [])"
  by (simp_all add: find_elem_def redmi_container_def struck_first_container_def plain_container_def)

theorem image_url_rewritten_witness:
  "map_option (\<lambda>p. dict_get p ''imageUrl'')
     (extract_product_info (sample_env redmi_page (\<lambda>page. Inr ok_response)) redmi_container
        (U ''redmi phone''))
     = Some (Some (VStr (U ''https://img.flipkart.com/x.jpg''))) \<and>
   map_option (\<lambda>p. dict_get p ''imageUrl'')
     (extract_product_info (sample_env redmi_page (\<lambda>page. Inr ok_response)) struck_first_container
        (U ''dell laptop''))
     = Some (Some (VStr (U ''https://www.flipkart.com/img/x.png''))) \<and>
   map_option (\<lambda>p. dict_get p ''imageUrl'')
     (extract_product_info (sample_env redmi_page (\<lambda>page. Inr ok_response)) plain_container
        (U ''sony tv''))
     = Some (Some (VStr (U ''https://cdn.example/x.png'')))"
proof -
  let ?E = "sample_env redmi_page (\<lambda>page. Inr ok_response)"
  obtain p1 where p1: "extract_product_info ?E redmi_container (U ''redmi phone'') = Some p1"
    using extract_product_info_returns
      [OF redmi_fields(2) _ redmi_fields(3) redmi_fields(4) redmi_fields(1)]
    by fastforce
  obtain p2 where p2: "extract_product_info ?E struck_first_container (U ''dell laptop'') = Some p2"
    using extract_product_info_returns
      [OF struck_first_fields(2) _ struck_first_fields(3) struck_first_fields(4) struck_first_fields(1)]
    by fastforce
  obtain p3 where p3: "extract_product_info ?E plain_container (U ''sony tv'') = Some p3"
    using extract_product_info_returns
      [OF plain_fields(2) _ plain_fields(3) plain_fields(4) plain_fields(1)]
    by fastforce
  have "dict_get p1 ''imageUrl'' = Some (VStr (U ''https://img.flipkart.com/x.jpg''))"
    using image_url_rewritten [OF p1 sample_images(1), of "U ''//img.flipkart.com/x.jpg''"]
    by simp
  moreover have "dict_get p2 ''imageUrl'' = Some (VStr (U ''https://www.flipkart.com/img/x.png''))"
    using image_url_rewritten [OF p2 sample_images(2), of "U ''/img/x.png''"]
    by simp
  moreover have "dict_get p3 ''imageUrl'' = Some (VStr (U ''https://cdn.example/x.png''))"
    using image_url_rewritten [OF p3 sample_images(3), of "U ''https://cdn.example/x.png''"]
    by simp
  ultimately show ?thesis using p1 p2 p3 by simp
qed

section \<open>Reading a price\<close>

lemma decimal_of_ascii:
  "48 \<le> c \<Longrightarrow> c \<le> 57 \<Longrightarrow> decimal_of zs c = Some (c - 48)"
  by (simp add: decimal_of_def)

lemma decimal_of_below_128:
  assumes "c < 48 \<or> 57 < c" and "c < 128"
  shows "decimal_of zs c = None"
proof -
  from assms(2) have "List.find (\<lambda>z. 128 \<le> z \<and> z \<le> c \<and> c < z + 10) zs = None"
    by (auto simp: find_None_iff)
  with assms(1) show ?thesis by (auto simp: decimal_of_def)
qed

lemma comma_not_decimal [simp]: "\<not> is_decimal zs 44"
  by (simp add: is_decimal_def decimal_of_below_128)

text \<open>
  No match begins in \<open>pre\<close>: every rupee sign of \<open>pre\<close> is followed by a character that
  is neither a digit nor a comma.
\<close>

lemma price_search_None_iff:
  "price_search zs (pre @ [c]) = None \<longleftrightarrow>
     (\<forall>i<length pre. pre ! i = 8377 \<longrightarrow> \<not> is_price_char zs ((pre @ [c]) ! Suc i))"
proof (induction pre)
  case Nil
  show ?case by simp
next
  case (Cons x xs)
  have "takeWhile (is_price_char zs) (xs @ [c]) \<noteq> [] \<longleftrightarrow> is_price_char zs ((xs @ [c]) ! 0)"
    by (simp add: takeWhile_eq_Nil_iff hd_conv_nth)
  with Cons show ?case
    by (simp add: All_less_Suc2)
qed

lemma price_search_skip:
  "price_search zs (pre @ [c]) = None \<Longrightarrow> price_search zs (pre @ c # s) = price_search zs (c # s)"
proof (induction pre)
  case Nil
  show ?case by simp
next
  case (Cons x xs)
  from Cons.prems have a: "\<not> (x = 8377 \<and> takeWhile (is_price_char zs) (xs @ [c]) \<noteq> [])"
    and b: "price_search zs (xs @ [c]) = None"
    by (auto split: if_splits)
  have "takeWhile (is_price_char zs) (xs @ c # s) = [] \<longleftrightarrow>
        takeWhile (is_price_char zs) (xs @ [c]) = []"
    by (cases xs) (simp_all add: takeWhile_eq_Nil_iff)
  with a have "\<not> (x = 8377 \<and> takeWhile (is_price_char zs) (xs @ c # s) \<noteq> [])"
    by simp
  then have "price_search zs ((x # xs) @ c # s) = price_search zs (xs @ c # s)"
    by auto
  also from b have "\<dots> = price_search zs (c # s)"
    by (rule Cons.IH)
  finally show ?case .
qed

lemma price_search_run:
  assumes "list_all (is_price_char zs) run" and "run \<noteq> []"
    and "rest = [] \<or> \<not> is_price_char zs (hd rest)"
  shows "price_search zs (8377 # run @ rest) = Some run"
proof -
  from assms(3) have "takeWhile (is_price_char zs) rest = []"
    by (simp add: takeWhile_eq_Nil_iff)
  with assms(1) have "takeWhile (is_price_char zs) (run @ rest) = run"
    by (simp add: list_all_iff)
  with assms(2) show ?thesis by simp
qed

lemma foldl_digits_horner:
  "foldl (\<lambda>a c. 10 * a + g c) a s = horner_sum g 10 (rev s) + a * 10 ^ length s"
  for g :: "nat \<Rightarrow> int"
  by (induction s arbitrary: a) (simp_all add: horner_sum_append algebra_simps)

lemma py_int_digits:
  assumes "list_all (is_decimal zs) ds" and "ds \<noteq> []"
    and "length ds \<le> 640 \<or> cap = 0 \<or> length ds \<le> cap"
  shows "py_int cap zs ds = Inr (\<Sum>n = 0..<length ds. digit_val zs (rev ds ! n) * 10 ^ n)"
  using assms by (auto simp: py_int_def foldl_digits_horner horner_sum_eq_sum)

lemma py_int_too_long:
  assumes "640 < length ds" and "0 < cap" and "cap < length ds"
  shows "py_int cap zs ds = Inl ValueError"
  using assms by (simp add: py_int_def)

text \<open>
  Claim C7 as stated, that every text matching the currency pattern is parsed to the
  corresponding integer, fails on a text with more digits than \<^verbatim>\<open>int\<close> converts: the
  pattern matches the rupee sign followed by 4301 digits, \<^verbatim>\<open>int\<close> raises
  \<^verbatim>\<open>ValueError\<close> on them under the limit of 4300, and the handler of
  \<^verbatim>\<open>extract_product_info\<close> returns \<^verbatim>\<open>None\<close> for the container.
\<close>

theorem parse_price_digit_limit_counterexample:
  "price_search (nd_zeros (sample_env redmi_page (\<lambda>page. Inr ok_response)))
     (8377 # replicate 4301 49) = Some (replicate 4301 49) \<and>
   parse_price (sample_env redmi_page (\<lambda>page. Inr ok_response)) (8377 # replicate 4301 49)
     = Inl ValueError \<and>
   title_field long_price_container = Some (U ''Gold Bar'') \<and>
   extract_product_info (sample_env redmi_page (\<lambda>page. Inr ok_response)) long_price_container
     (U ''gold'') = None"
proof -
  let ?E = "sample_env redmi_page (\<lambda>page. Inr ok_response)"
  have d: "is_price_char [1632, 2406] 49" "is_decimal [1632, 2406] 49"
    by (simp_all add: is_price_char_def is_decimal_def decimal_of_def)
  have a: "price_search (nd_zeros ?E) (8377 # replicate 4301 49) = Some (replicate 4301 49)"
    by (simp add: d)
  have i: "py_int 4300 [1632, 2406] (replicate 4301 49) = Inl ValueError"
    by (rule py_int_too_long) simp_all
  have b: "parse_price ?E (8377 # replicate 4301 49) = Inl ValueError"
    by (simp add: parse_price_def d filter_replicate i)
  have t: "title_field long_price_container = Some (U ''Gold Bar'')"
    by (simp add: long_price_container_def title_field_def title_elem_def dom_eval)
  have "selling_field ?E long_price_container = Inl ValueError"
    using b by (simp add: long_price_container_def selling_field_def price_elem_def dom_eval
        has_price_def d)
  then have "\<exists>e. extract_fields ?E long_price_container (U ''gold'') = Inl e"
    using extract_fields_raises [of ?E long_price_container "U ''gold''"] by blast
  then have c: "extract_product_info ?E long_price_container (U ''gold'') = None"
    by (auto simp: extract_product_info_def)
  from a b t c show ?thesis by simp
qed

text \<open>
  Claim C7, as amended. Take a text in which the pattern is found at a rupee sign followed
  by a run of digits and commas with at least one digit: no earlier rupee sign is followed
  by a digit or comma, and the run ends where the text ends or another character comes.
  If the digits of the run are no more than \<^verbatim>\<open>int\<close> converts (at most 640, or at most the
  interpreter's limit, 4300 unless changed, or no limit is set), the text is parsed to the
  integer that these digits denote, the commas removed: the digit at position \<open>n\<close> from the
  right counts \<open>10 ^ n\<close> times. If they are more, \<^verbatim>\<open>int\<close> raises \<^verbatim>\<open>ValueError\<close>. In particular
  the rupee sign followed by \<^verbatim>\<open>12,345\<close> gives 12345.
\<close>

theorem parse_price_currency_text:
  assumes "\<forall>i<length pre. pre ! i = 8377 \<longrightarrow> \<not> is_price_char (nd_zeros env) ((pre @ [8377]) ! Suc i)"
    and "list_all (is_price_char (nd_zeros env)) run"
    and "list_ex (is_decimal (nd_zeros env)) run"
    and "rest = [] \<or> \<not> is_price_char (nd_zeros env) (hd rest)"
    and "ds = filter (\<lambda>c. c \<noteq> 44) run"
  shows "(length ds \<le> 640 \<or> int_max_str_digits env = 0 \<or> length ds \<le> int_max_str_digits env \<longrightarrow>
            parse_price env (pre @ 8377 # run @ rest) =
              Inr (Some (\<Sum>n = 0..<length ds. digit_val (nd_zeros env) (rev ds ! n) * 10 ^ n))) \<and>
         (640 < length ds \<and> 0 < int_max_str_digits env \<and> int_max_str_digits env < length ds \<longrightarrow>
            parse_price env (pre @ 8377 # run @ rest) = Inl ValueError) \<and>
         parse_price env (8377 # U ''12,345'') = Inr (Some 12345)"
proof (intro conjI impI)
  show "parse_price env (8377 # U ''12,345'') = Inr (Some 12345)"
    by (simp add: parse_price_def py_int_def is_price_char_def is_decimal_def decimal_of_def
        digit_val_def)
next
  from assms(3) have ne: "run \<noteq> []" by auto
  from assms(1) have "price_search (nd_zeros env) (pre @ [8377]) = None"
    by (simp add: price_search_None_iff)
  then have "price_search (nd_zeros env) (pre @ 8377 # run @ rest) =
      price_search (nd_zeros env) (8377 # run @ rest)"
    by (rule price_search_skip)
  also from assms(2) ne assms(4) have "\<dots> = Some run"
    by (rule price_search_run)
  finally have ps: "price_search (nd_zeros env) (pre @ 8377 # run @ rest) = Some run" .
  from assms(2,5) have all: "list_all (is_decimal (nd_zeros env)) ds"
    by (auto simp: list_all_iff is_price_char_def)
  from assms(3) obtain d where d: "d \<in> set run" "is_decimal (nd_zeros env) d"
    by (auto simp: list_ex_iff)
  then have "d \<noteq> 44" by auto
  with d assms(5) have "d \<in> set ds" by simp
  then have dne: "ds \<noteq> []" by auto
  {
    assume "length ds \<le> 640 \<or> int_max_str_digits env = 0 \<or> length ds \<le> int_max_str_digits env"
    with all dne have "py_int (int_max_str_digits env) (nd_zeros env) ds =
        Inr (\<Sum>n = 0..<length ds. digit_val (nd_zeros env) (rev ds ! n) * 10 ^ n)"
      by (rule py_int_digits)
    with ps assms(5) show "parse_price env (pre @ 8377 # run @ rest) =
        Inr (Some (\<Sum>n = 0..<length ds. digit_val (nd_zeros env) (rev ds ! n) * 10 ^ n))"
      by (simp add: parse_price_def)
  }
  {
    assume "640 < length ds \<and> 0 < int_max_str_digits env \<and> int_max_str_digits env < length ds"
    then have "py_int (int_max_str_digits env) (nd_zeros env) ds = Inl ValueError"
      by (simp add: py_int_too_long)
    with ps assms(5) show "parse_price env (pre @ 8377 # run @ rest) = Inl ValueError"
      by (simp add: parse_price_def)
  }
qed

theorem parse_price_currency_text_witness:
  "parse_price (sample_env redmi_page (\<lambda>page. Inr ok_response))
     (U ''Save '' @ 8377 # U '' now: '' @ 8377 # U ''12,345'') = Inr (Some 12345) \<and>
   parse_price (sample_env redmi_page (\<lambda>page. Inr ok_response))
     (U ''MRP '' @ 8377 # [2407, 2408, 44, 2409, 2410, 2411] @ U ''/-'') = Inr (Some 12345) \<and>
   parse_price (sample_env redmi_page (\<lambda>page. Inr ok_response))
     (8377 # replicate 4301 49 @ U '' only'') = Inl ValueError"
proof -
  let ?E = "sample_env redmi_page (\<lambda>page. Inr ok_response)"
  have s: "{0..<5::nat} = {0, 1, 2, 3, 4}" by auto
  have h: "\<forall>i<length (U ''Save '' @ 8377 # U '' now: '').
      (U ''Save '' @ 8377 # U '' now: '') ! i = 8377 \<longrightarrow>
      \<not> is_price_char (nd_zeros ?E) (((U ''Save '' @ 8377 # U '' now: '') @ [8377]) ! Suc i)"
    unfolding price_search_None_iff [symmetric]
    by (simp add: is_price_char_def is_decimal_def decimal_of_def)
  have "(length (U ''12345'') \<le> 640 \<or> int_max_str_digits ?E = 0 \<or>
           length (U ''12345'') \<le> int_max_str_digits ?E \<longrightarrow>
         parse_price ?E ((U ''Save '' @ 8377 # U '' now: '') @ 8377 # U ''12,345'' @ []) =
           Inr (Some (\<Sum>n = 0..<length (U ''12345'').
                 digit_val (nd_zeros ?E) (rev (U ''12345'') ! n) * 10 ^ n))) \<and>
        (640 < length (U ''12345'') \<and> 0 < int_max_str_digits ?E \<and>
           int_max_str_digits ?E < length (U ''12345'') \<longrightarrow>
         parse_price ?E ((U ''Save '' @ 8377 # U '' now: '') @ 8377 # U ''12,345'' @ []) =
           Inl ValueError) \<and>
        parse_price ?E (8377 # U ''12,345'') = Inr (Some 12345)"
    by (rule parse_price_currency_text [OF h])
      (simp_all add: is_price_char_def is_decimal_def decimal_of_def)
  then have a: "parse_price ?E ((U ''Save '' @ 8377 # U '' now: '') @ 8377 # U ''12,345'' @ []) =
      Inr (Some 12345)"
    by (simp add: digit_val_def decimal_of_def s)
  have h2: "\<forall>i<length (U ''MRP ''). (U ''MRP '') ! i = 8377 \<longrightarrow>
      \<not> is_price_char (nd_zeros ?E) ((U ''MRP '' @ [8377]) ! Suc i)"
    unfolding price_search_None_iff [symmetric]
    by (simp add: is_price_char_def is_decimal_def decimal_of_def)
  have "(length [2407, 2408, 2409, 2410, 2411 :: nat] \<le> 640 \<or> int_max_str_digits ?E = 0 \<or>
           length [2407, 2408, 2409, 2410, 2411 :: nat] \<le> int_max_str_digits ?E \<longrightarrow>
         parse_price ?E (U ''MRP '' @ 8377 # [2407, 2408, 44, 2409, 2410, 2411] @ U ''/-'') =
           Inr (Some (\<Sum>n = 0..<length [2407, 2408, 2409, 2410, 2411 :: nat].
                 digit_val (nd_zeros ?E) (rev [2407, 2408, 2409, 2410, 2411] ! n) * 10 ^ n))) \<and>
        (640 < length [2407, 2408, 2409, 2410, 2411 :: nat] \<and> 0 < int_max_str_digits ?E \<and>
           int_max_str_digits ?E < length [2407, 2408, 2409, 2410, 2411 :: nat] \<longrightarrow>
         parse_price ?E (U ''MRP '' @ 8377 # [2407, 2408, 44, 2409, 2410, 2411] @ U ''/-'') =
           Inl ValueError) \<and>
        parse_price ?E (8377 # U ''12,345'') = Inr (Some 12345)"
    by (rule parse_price_currency_text [OF h2])
      (simp_all add: is_price_char_def is_decimal_def decimal_of_def)
  then have b: "parse_price ?E (U ''MRP '' @ 8377 # [2407, 2408, 44, 2409, 2410, 2411] @ U ''/-'')
      = Inr (Some 12345)"
    by (simp add: digit_val_def decimal_of_def s)
  have d: "is_price_char [1632, 2406] 49" "is_decimal [1632, 2406] 49"
    "\<not> is_price_char [1632, 2406] 32"
    by (simp_all add: is_price_char_def is_decimal_def decimal_of_def)
  have c: "parse_price ?E ([] @ 8377 # replicate 4301 49 @ U '' only'') = Inl ValueError"
    using parse_price_currency_text
      [of "[]" ?E "replicate 4301 49" "U '' only''" "replicate 4301 49"]
    by (simp add: d list_all_iff list_ex_iff filter_replicate)
  from a b c show ?thesis by simp
qed

section \<open>The loop over the pages\<close>

lemma fetch_pages_ok_prefix:
  assumes "0 < m" and "list_all (page_ok env q) pre"
  shows "fetch_pages env q m (pre @ post) [] =
           (case fetch_pages env q m post [] of (sent, r) \<Rightarrow> (pre @ sent, r))"
  using assms(2)
proof (induction pre)
  case Nil
  show ?case by (simp split: prod.splits)
next
  case (Cons page pre)
  then obtain r where r: "requests_get env q page = Inr r" "status_code r = 200"
    by (auto simp: page_ok_def split: sum.splits)
  from Cons have "fetch_pages env q m (pre @ post) [] =
           (case fetch_pages env q m post [] of (sent, r) \<Rightarrow> (pre @ sent, r))"
    by simp
  with r assms(1) show ?case
    by (simp add: parse_search_results_Nil split: prod.splits)
qed

lemma fetch_pages_raise:
  "requests_get env q page = Inl e \<Longrightarrow> fetch_pages env q m (page # rest) [] = ([page], Inl e)"
  by simp

lemma fetch_pages_prefix:
  "\<exists>rest. pages = fst (fetch_pages env q m pages products) @ rest"
proof (induction pages arbitrary: products)
  case Nil
  show ?case by simp
next
  case (Cons page pages)
  show ?case
  proof (cases "requests_get env q page")
    case (Inl e)
    then show ?thesis by simp
  next
    case (Inr r)
    from Cons [of "products @ parse_search_results env (resp_text r) q"]
    obtain rest where "pages =
        fst (fetch_pages env q m pages (products @ parse_search_results env (resp_text r) q)) @ rest"
      by blast
    with Inr show ?thesis
      by (auto simp: Let_def split: prod.splits)
  qed
qed

lemma pages_to_scrape_small: "m \<le> 0 \<Longrightarrow> pages_to_scrape m \<le> 1"
  by (simp add: pages_to_scrape_def)

lemma fetch_pages_all_ok:
  assumes "list_all (page_ok env q) pages" and "0 < m \<or> length pages \<le> 1"
  shows "fetch_pages env q m pages [] = (pages, Inr [])"
proof (cases "0 < m")
  case True
  from True assms(1) have "fetch_pages env q m (pages @ []) [] =
      (case fetch_pages env q m [] [] of (sent, r) \<Rightarrow> (pages @ sent, r))"
    by (rule fetch_pages_ok_prefix)
  then show ?thesis by simp
next
  case False
  with assms(2) have "length pages \<le> 1" by simp
  then consider "pages = []" | page where "pages = [page]"
    by (cases pages) auto
  then show ?thesis
  proof cases
    case 1
    then show ?thesis by simp
  next
    case 2
    with assms(1) obtain r where "requests_get env q page = Inr r" "status_code r = 200"
      by (auto simp: page_ok_def split: sum.splits)
    with 2 show ?thesis
      by (simp add: parse_search_results_Nil)
  qed
qed

text \<open>
  Claim C5. If a request raises (on any page that the loop reaches, the first one
  included), \<^verbatim>\<open>search_products\<close> does not raise: it returns the failure envelope with
  \<^verbatim>\<open>success\<close> false, an empty product list, the text of the exception and the query.
\<close>

theorem search_products_failure_envelope:
  assumes "1 \<le> k" and "k \<le> pages_to_scrape max_results"
    and "requests_get env query k = Inl e"
    and "\<forall>j. 1 \<le> j \<and> j < k \<longrightarrow> page_ok env query j"
  shows "search_products env query max_results =
           [(''success'', VBool False), (''products'', VList []),
            (''error'', VStr (exn_str e)), (''query'', VStr query)]"
proof -
  let ?pages = "[1..pages_to_scrape max_results]"
  from assms(1,2) have split: "?pages = [1..k - 1] @ k # [k + 1..pages_to_scrape max_results]"
    by (rule upto_split3)
  have "fetch_pages env query max_results ?pages [] = ([1..k - 1] @ [k], Inl e)"
  proof (cases "k = 1")
    case True
    with split assms(3) show ?thesis by simp
  next
    case False
    with assms(1,2) have two: "2 \<le> pages_to_scrape max_results" by simp
    have m: "0 < max_results"
    proof (rule ccontr)
      assume "\<not> 0 < max_results"
      then have "pages_to_scrape max_results \<le> 1" by (simp add: pages_to_scrape_small)
      with two show False by simp
    qed
    from assms(4) have "list_all (page_ok env query) [1..k - 1]"
      by (simp add: list_all_iff)
    with m have "fetch_pages env query max_results ([1..k - 1] @ k # [k + 1..pages_to_scrape max_results]) [] =
        (case fetch_pages env query max_results (k # [k + 1..pages_to_scrape max_results]) [] of
           (sent, r) \<Rightarrow> ([1..k - 1] @ sent, r))"
      by (rule fetch_pages_ok_prefix)
    with split assms(3) show ?thesis by simp
  qed
  then show ?thesis
    by (simp add: search_products_def)
qed

theorem search_products_failure_envelope_witness:
  "search_products
     (sample_env redmi_page (\<lambda>page. if page = 1 then Inr ok_response else Inl connection_error))
     (U ''redmi phone'') 25 =
     [(''success'', VBool False), (''products'', VList []),
      (''error'', VStr (U ''Max retries exceeded'')), (''query'', VStr (U ''redmi phone''))] \<and>
   search_products (sample_env redmi_page (\<lambda>page. Inl connection_error)) (U ''redmi phone'') 25 =
     [(''success'', VBool False), (''products'', VList []),
      (''error'', VStr (U ''Max retries exceeded'')), (''query'', VStr (U ''redmi phone''))]"
proof -
  have a: "search_products
     (sample_env redmi_page (\<lambda>page. if page = 1 then Inr ok_response else Inl connection_error))
     (U ''redmi phone'') 25 =
     [(''success'', VBool False), (''products'', VList []),
      (''error'', VStr (exn_str connection_error)), (''query'', VStr (U ''redmi phone''))]"
    by (rule search_products_failure_envelope [of 2])
      (auto simp: pages_to_scrape_def page_ok_def ok_response_def)
  have b: "search_products (sample_env redmi_page (\<lambda>page. Inl connection_error)) (U ''redmi phone'') 25 =
     [(''success'', VBool False), (''products'', VList []),
      (''error'', VStr (exn_str connection_error)), (''query'', VStr (U ''redmi phone''))]"
    by (rule search_products_failure_envelope [of 1])
      (auto simp: pages_to_scrape_def page_ok_def)
  from a b show ?thesis by (simp add: connection_error_def)
qed

text \<open>
  Claim C6 as stated, that the number of pages attempted equals
  \<^verbatim>\<open>min(3, max_results // 10 + 1)\<close> for every \<^verbatim>\<open>max_results\<close>, fails when a page is answered
  with another status than 200: the loop stops there. With \<^verbatim>\<open>max_results = 25\<close> and a first
  answer of status 404 one page is attempted, not three.
\<close>

theorem pages_attempted_counterexample:
  "pages_attempted (sample_env redmi_page (\<lambda>page. Inr not_found_response)) (U ''redmi phone'') 25 = [1] \<and>
   int (length (pages_attempted (sample_env redmi_page (\<lambda>page. Inr not_found_response))
      (U ''redmi phone'') 25)) \<noteq> min 3 (25 div 10 + 1)"
  by (simp add: pages_attempted_def pages_to_scrape_def not_found_response_def upto.simps)

lemma fetch_pages_stop:
  "\<not> page_ok env q page \<Longrightarrow> fst (fetch_pages env q m (page # rest) products) = [page]"
  by (auto simp: page_ok_def split: sum.splits)

text \<open>
  Claim C6, as amended. \<^verbatim>\<open>pages_to_scrape\<close> is \<^verbatim>\<open>min(3, max_results // 10 + 1)\<close>, which is 3
  for 25 and 1 for 5. The pages for which a request is sent are an initial segment of
  the pages 1 to \<^verbatim>\<open>pages_to_scrape\<close>, so at most that many (none when that bound is below 1).
  They are all of them when every one of these pages is answered with status 200; and when
  page \<open>k\<close> is the first whose request raises or is answered with another status, they are
  the pages 1 to \<open>k\<close>: the fetcher stops there.
\<close>

theorem pages_attempted_initial_segment:
  "pages_to_scrape max_results = min 3 (max_results div 10 + 1) \<and>
   pages_to_scrape 25 = 3 \<and> pages_to_scrape 5 = 1 \<and>
   (\<exists>rest. [1..pages_to_scrape max_results] = pages_attempted env query max_results @ rest) \<and>
   int (length (pages_attempted env query max_results)) \<le> max 0 (pages_to_scrape max_results) \<and>
   ((\<forall>j. 1 \<le> j \<and> j \<le> pages_to_scrape max_results \<longrightarrow> page_ok env query j) \<longrightarrow>
      pages_attempted env query max_results = [1..pages_to_scrape max_results] \<and>
      int (length (pages_attempted env query max_results)) = max 0 (pages_to_scrape max_results)) \<and>
   (\<forall>k. 1 \<le> k \<and> k \<le> pages_to_scrape max_results \<and> \<not> page_ok env query k \<and>
        (\<forall>j. 1 \<le> j \<and> j < k \<longrightarrow> page_ok env query j) \<longrightarrow>
      pages_attempted env query max_results = [1..k] \<and>
      int (length (pages_attempted env query max_results)) = k)"
proof -
  let ?n = "pages_to_scrape max_results"
  obtain rest where rest: "[1..?n] = pages_attempted env query max_results @ rest"
    using fetch_pages_prefix [of "[1..?n]" env query max_results "[]"]
    by (auto simp: pages_attempted_def)
  then have "length (pages_attempted env query max_results) \<le> length [1..?n]"
    by (metis length_append le_add1)
  then have len: "int (length (pages_attempted env query max_results)) \<le> max 0 ?n"
    by simp
  have all: "pages_attempted env query max_results = [1..?n] \<and>
      int (length (pages_attempted env query max_results)) = max 0 ?n"
    if ok: "\<forall>j. 1 \<le> j \<and> j \<le> ?n \<longrightarrow> page_ok env query j"
  proof -
    from ok have a: "list_all (page_ok env query) [1..?n]"
      by (simp add: list_all_iff)
    have "0 < max_results \<or> length [1..?n] \<le> 1"
      using pages_to_scrape_small [of max_results] by (cases "0 < max_results") auto
    with a have "fetch_pages env query max_results [1..?n] [] = ([1..?n], Inr [])"
      by (rule fetch_pages_all_ok)
    then show ?thesis by (simp add: pages_attempted_def)
  qed
  have stop: "pages_attempted env query max_results = [1..k] \<and>
      int (length (pages_attempted env query max_results)) = k"
    if k: "1 \<le> k" "k \<le> ?n" and bad: "\<not> page_ok env query k"
      and before: "\<forall>j. 1 \<le> j \<and> j < k \<longrightarrow> page_ok env query j" for k
  proof -
    from k have split: "[1..?n] = [1..k - 1] @ k # [k + 1..?n]"
      by (rule upto_split3)
    have last: "fst (fetch_pages env query max_results (k # [k + 1..?n]) []) = [k]"
      using bad by (rule fetch_pages_stop)
    have "fst (fetch_pages env query max_results [1..?n] []) = [1..k - 1] @ [k]"
    proof (cases "k = 1")
      case True
      with split last show ?thesis by simp
    next
      case False
      with k have two: "2 \<le> ?n" by simp
      have m: "0 < max_results"
      proof (rule ccontr)
        assume "\<not> 0 < max_results"
        then have "?n \<le> 1" by (simp add: pages_to_scrape_small)
        with two show False by simp
      qed
      from before have "list_all (page_ok env query) [1..k - 1]"
        by (simp add: list_all_iff)
      with m have "fetch_pages env query max_results ([1..k - 1] @ k # [k + 1..?n]) [] =
          (case fetch_pages env query max_results (k # [k + 1..?n]) [] of
             (sent, r) \<Rightarrow> ([1..k - 1] @ sent, r))"
        by (rule fetch_pages_ok_prefix)
      with split last show ?thesis by (simp add: case_prod_beta)
    qed
    moreover from k have "[1..k - 1] @ [k] = [1..k]"
      by (simp add: upto_rec2)
    ultimately have "pages_attempted env query max_results = [1..k]"
      by (simp add: pages_attempted_def)
    with k show ?thesis by simp
  qed
  have p: "pages_to_scrape max_results = min 3 (max_results div 10 + 1)"
    "pages_to_scrape 25 = 3" "pages_to_scrape 5 = 1"
    by (simp_all add: pages_to_scrape_def)
  from rest have r: "\<exists>rest. [1..?n] = pages_attempted env query max_results @ rest" by blast
  from p r len all stop show ?thesis by blast
qed

theorem pages_attempted_initial_segment_witness:
  "pages_attempted (sample_env redmi_page (\<lambda>page. Inr ok_response)) (U ''redmi phone'') 25 = [1, 2, 3] \<and>
   pages_attempted (sample_env redmi_page (\<lambda>page. Inr ok_response)) (U ''redmi phone'') 5 = [1] \<and>
   pages_attempted (sample_env redmi_page (\<lambda>page. Inr ok_response)) (U ''redmi phone'') (- 25) = [] \<and>
   pages_attempted
     (sample_env redmi_page (\<lambda>page. if page = 1 then Inr ok_response else Inr not_found_response))
     (U ''redmi phone'') 25 = [1, 2] \<and>
   pages_attempted
     (sample_env redmi_page (\<lambda>page. if page = 1 then Inr ok_response else Inl connection_error))
     (U ''redmi phone'') 25 = [1, 2]"
proof -
  let ?E = "sample_env redmi_page (\<lambda>page. Inr ok_response)"
  let ?F = "sample_env redmi_page (\<lambda>page. if page = 1 then Inr ok_response else Inr not_found_response)"
  let ?G = "sample_env redmi_page (\<lambda>page. if page = 1 then Inr ok_response else Inl connection_error)"
  have ok: "page_ok ?E (U ''redmi phone'') j" for j
    by (simp add: page_ok_def ok_response_def)
  have a: "pages_attempted ?E (U ''redmi phone'') 25 = [1, 2, 3] \<and>
      pages_attempted ?E (U ''redmi phone'') 5 = [1] \<and>
      pages_attempted ?E (U ''redmi phone'') (- 25) = []"
    using ok pages_attempted_initial_segment [of 25 ?E "U ''redmi phone''"]
      pages_attempted_initial_segment [of 5 ?E "U ''redmi phone''"]
      pages_attempted_initial_segment [of "- 25" ?E "U ''redmi phone''"]
    by (simp add: pages_to_scrape_def upto.simps)
  have f: "page_ok ?F q j = (j = 1)" for j q
    by (simp add: page_ok_def ok_response_def not_found_response_def)
  have g: "page_ok ?G q j = (j = 1)" for j q
    by (simp add: page_ok_def ok_response_def)
  have "1 \<le> (2::int) \<and> 2 \<le> pages_to_scrape 25 \<and> \<not> page_ok ?F (U ''redmi phone'') 2 \<and>
        (\<forall>j. 1 \<le> j \<and> j < 2 \<longrightarrow> page_ok ?F (U ''redmi phone'') j)"
    by (auto simp: f pages_to_scrape_def)
  then have b: "pages_attempted ?F (U ''redmi phone'') 25 = [1..2]"
    using pages_attempted_initial_segment [of 25 ?F "U ''redmi phone''"] by blast
  have "1 \<le> (2::int) \<and> 2 \<le> pages_to_scrape 25 \<and> \<not> page_ok ?G (U ''redmi phone'') 2 \<and>
        (\<forall>j. 1 \<le> j \<and> j < 2 \<longrightarrow> page_ok ?G (U ''redmi phone'') j)"
    by (auto simp: g pages_to_scrape_def)
  then have c: "pages_attempted ?G (U ''redmi phone'') 25 = [1..2]"
    using pages_attempted_initial_segment [of 25 ?G "U ''redmi phone''"] by blast
  from a b c show ?thesis by (simp add: upto.simps)
qed

section \<open>The choice of containers\<close>

lemma ci_startswith_append: "ci_startswith s w \<Longrightarrow> ci_startswith (s @ b) w"
  by (induction s w rule: ci_startswith.induct) auto

lemma ci_search_Nil [simp]: "ci_search [] s"
  by (cases s) auto

lemma ci_search_append_right: "ci_search w s \<Longrightarrow> ci_search w (s @ b)"
proof (induction s)
  case Nil
  then show ?case by simp
next
  case (Cons c s)
  then show ?case
    using ci_startswith_append [of "c # s" w b] by auto
qed

lemma ci_search_append_left: "ci_search w s \<Longrightarrow> ci_search w (a @ s)"
  by (induction a) auto

lemma join_space_member:
  "t \<in> set toks \<Longrightarrow> \<exists>a b. join_space toks = a @ t @ b"
proof (induction toks rule: join_space.induct)
  case 1
  then show ?case by simp
next
  case (2 u)
  then have "join_space [u] = [] @ t @ []" by simp
  then show ?case by blast
next
  case (3 u v vs)
  show ?case
  proof (cases "t = u")
    case True
    then have "join_space (u # v # vs) = [] @ t @ (32 # join_space (v # vs))" by simp
    then show ?thesis by blast
  next
    case False
    with "3.prems" have "t \<in> set (v # vs)" by simp
    then obtain a b where "join_space (v # vs) = a @ t @ b"
      using "3.IH" by blast
    then have "join_space (u # v # vs) = (u @ 32 # a) @ t @ b" by simp
    then show ?thesis by blast
  qed
qed

lemma class_search_class_text:
  "class_search w x = (case class_text x of None \<Rightarrow> False | Some s \<Rightarrow> ci_search w s)"
proof (cases x)
  case (Tag n c a cs)
  show ?thesis
  proof (cases c)
    case None
    with Tag show ?thesis by simp
  next
    case (Some toks)
    have "ci_search w (join_space toks)" if "t \<in> set toks" "ci_search w t" for t
    proof -
      from that(1) obtain a b where "join_space toks = a @ t @ b"
        using join_space_member by blast
      with that(2) show ?thesis
        by (simp add: ci_search_append_left ci_search_append_right)
    qed
    with Tag Some show ?thesis by (auto simp: list_ex_iff)
  qed
next
  case (NavigableString s)
  then show ?thesis by simp
next
  case (Comment s)
  then show ?thesis by simp
qed

text \<open>
  Claim C10 as stated, that every element with a \<^verbatim>\<open>data-id\<close> attribute (and, failing
  that, every element whose class contains the word) is a candidate, fails on a page
  whose marked element is not a \<^verbatim>\<open>div\<close>: the searches of the scraper are
  \<^verbatim>\<open>find_all('div', ...)\<close>. On the page below the specification selects the list item with
  \<^verbatim>\<open>data-id\<close>; the scraper passes it over and takes the \<^verbatim>\<open>div\<close> of class
  \<^verbatim>\<open>Product-card\<close>.
\<close>

theorem product_containers_counterexample:
  "find_candidates_spec li_page =
     [Tag (U ''li'') None [(U ''data-id'', U ''1'')] [NavigableString (U ''first'')]] \<and>
   take 25 (product_containers li_page) =
     [Tag (U ''div'') (Some [U ''Product-card'']) [] [NavigableString (U ''second'')]]"
  by (simp add: find_candidates_spec_def product_containers_def li_page_def find_all_def
      list_or_def ci_eq_def)

lemma containers_processed_page:
  "soup env html = Inr page \<Longrightarrow>
     containers_processed env html q = take 25 (product_containers page)"
  by (simp add: containers_processed_def parse_page_def scan_containers_calls)

lemma containers_processed_raise:
  "soup env html = Inl e \<Longrightarrow> containers_processed env html q = []"
  by (simp add: containers_processed_def parse_page_def)

text \<open>
  Claim C10, as amended. The candidates are \<^verbatim>\<open>div\<close> elements only. In document order
  they are all \<^verbatim>\<open>div\<close>s that carry an attribute \<^verbatim>\<open>data-id\<close>, whatever its value; if there
  is none, all \<^verbatim>\<open>div\<close>s whose class text contains \<^verbatim>\<open>product\<close>, letters compared without
  regard to case; if there is none either, all \<^verbatim>\<open>div\<close>s whose class text so contains
  \<^verbatim>\<open>item\<close>. The first search that finds something wins, the results are not united.
  The containers on which \<^verbatim>\<open>parse_search_results\<close> calls \<^verbatim>\<open>extract_product_info\<close> are
  the first 25 candidates of the page, all of them if there are fewer, and none if the
  page cannot be parsed: at most 25 for a page.
\<close>

theorem product_containers_priority:
  "(let by_id = filter (\<lambda>x. tag_named (U ''div'') x \<and> has_attr (U ''data-id'') x) (descendants page);
        by_product = filter (\<lambda>x. tag_named (U ''div'') x \<and>
            (case class_text x of None \<Rightarrow> False | Some s \<Rightarrow> ci_search (U ''product'') s))
          (descendants page);
        by_item = filter (\<lambda>x. tag_named (U ''div'') x \<and>
            (case class_text x of None \<Rightarrow> False | Some s \<Rightarrow> ci_search (U ''item'') s))
          (descendants page)
    in product_containers page =
         (if by_id \<noteq> [] then by_id else if by_product \<noteq> [] then by_product else by_item)) \<and>
   (\<forall>x \<in> set (product_containers page). tag_named (U ''div'') x \<and> x \<in> set (descendants page)) \<and>
   (soup env html_content = Inr page \<longrightarrow>
      containers_processed env html_content query = take 25 (product_containers page) \<and>
      length (containers_processed env html_content query) = min 25 (length (product_containers page))) \<and>
   (soup env html_content = Inl e \<longrightarrow> containers_processed env html_content query = []) \<and>
   length (containers_processed env html_content query) \<le> 25"
proof (intro conjI)
  show "let by_id = filter (\<lambda>x. tag_named (U ''div'') x \<and> has_attr (U ''data-id'') x) (descendants page);
        by_product = filter (\<lambda>x. tag_named (U ''div'') x \<and>
            (case class_text x of None \<Rightarrow> False | Some s \<Rightarrow> ci_search (U ''product'') s))
          (descendants page);
        by_item = filter (\<lambda>x. tag_named (U ''div'') x \<and>
            (case class_text x of None \<Rightarrow> False | Some s \<Rightarrow> ci_search (U ''item'') s))
          (descendants page)
    in product_containers page =
         (if by_id \<noteq> [] then by_id else if by_product \<noteq> [] then by_product else by_item)"
    unfolding product_containers_def list_or_def find_all_def class_search_class_text Let_def
    by (rule refl)
  show "\<forall>x \<in> set (product_containers page). tag_named (U ''div'') x \<and> x \<in> set (descendants page)"
    unfolding product_containers_def list_or_def find_all_def
    by (simp only: set_filter split: if_splits) blast
  show "soup env html_content = Inr page \<longrightarrow>
      containers_processed env html_content query = take 25 (product_containers page) \<and>
      length (containers_processed env html_content query) = min 25 (length (product_containers page))"
    by (simp add: containers_processed_page min.commute)
  show "soup env html_content = Inl e \<longrightarrow> containers_processed env html_content query = []"
    by (simp add: containers_processed_raise)
  show "length (containers_processed env html_content query) \<le> 25"
  proof (cases "soup env html_content")
    case (Inl e')
    then show ?thesis by (simp add: containers_processed_raise)
  next
    case (Inr page')
    then show ?thesis by (simp add: containers_processed_page)
  qed
qed

theorem product_containers_priority_witness:
  "product_containers li_page =
     [Tag (U ''div'') (Some [U ''Product-card'']) [] [NavigableString (U ''second'')]] \<and>
   containers_processed (sample_env li_page (\<lambda>page. Inr ok_response)) (U ''<html></html>'') (U ''tv'') =
     [Tag (U ''div'') (Some [U ''Product-card'']) [] [NavigableString (U ''second'')]] \<and>
   product_containers crowded_page =
     replicate 30 (Tag (U ''div'') None [(U ''data-id'', U ''7'')] []) \<and>
   containers_processed (sample_env crowded_page (\<lambda>page. Inr ok_response)) (U ''<html></html>'')
       (U ''tv'') =
     replicate 25 (Tag (U ''div'') None [(U ''data-id'', U ''7'')] [])"
proof -
  let ?L = "sample_env li_page (\<lambda>page. Inr ok_response)"
  let ?C = "sample_env crowded_page (\<lambda>page. Inr ok_response)"
  have a: "product_containers li_page =
     [Tag (U ''div'') (Some [U ''Product-card'']) [] [NavigableString (U ''second'')]] \<and>
   containers_processed ?L (U ''<html></html>'') (U ''tv'') =
     [Tag (U ''div'') (Some [U ''Product-card'']) [] [NavigableString (U ''second'')]]"
    using product_containers_priority [of li_page ?L "U ''<html></html>''" "U ''tv''" ValueError]
    by (simp add: li_page_def ci_eq_def Let_def)
  have b: "product_containers crowded_page =
     replicate 30 (Tag (U ''div'') None [(U ''data-id'', U ''7'')] []) \<and>
   containers_processed ?C (U ''<html></html>'') (U ''tv'') =
     replicate 25 (Tag (U ''div'') None [(U ''data-id'', U ''7'')] [])"
    using product_containers_priority [of crowded_page ?C "U ''<html></html>''" "U ''tv''" ValueError]
    by (simp add: crowded_page_def Let_def filter_replicate)
  from a b show ?thesis by simp
qed

section \<open>The original price\<close>

text \<open>
  Claim C3. The claim is that \<^verbatim>\<open>mrp\<close> is stored exactly when the container's text holds a
  second price above the selling price. The scraper looks for the MRP with the same search
  that found the selling price, \<^verbatim>\<open>find(text=...)\<close> from the start of the container, so on the
  listing of the specification's own scenario (selling price 14,999 followed by 19,999) it
  reads 14,999 again, the test \<^verbatim>\<open>mrp_price > sellingPrice\<close> fails, and neither \<^verbatim>\<open>mrp\<close> nor
  \<^verbatim>\<open>discount\<close> is stored although the higher price stands in the container.
\<close>

theorem mrp_missed_on_second_price:
  "map_option (\<lambda>p. (dict_get p ''sellingPrice'', dict_get p ''mrp'', dict_get p ''discount''))
     (extract_product_info (sample_env redmi_page (\<lambda>page. Inr ok_response)) redmi_container
        (U ''redmi phone''))
     = Some (Some (VInt 14999), None, None) \<and>
   NavigableString (8377 # U ''19,999'') \<in> set (descendants redmi_container) \<and>
   parse_price (sample_env redmi_page (\<lambda>page. Inr ok_response)) (8377 # U ''19,999'')
     = Inr (Some 19999)"
proof -
  let ?E = "sample_env redmi_page (\<lambda>page. Inr ok_response)"
  obtain p where p: "extract_product_info ?E redmi_container (U ''redmi phone'') = Some p"
    using extract_product_info_returns
      [OF redmi_fields(2) _ redmi_fields(3) redmi_fields(4) redmi_fields(1)]
    by fastforce
  then have "extract_fields ?E redmi_container (U ''redmi phone'') = Inr p"
    by (rule extract_product_info_Some)
  then obtain sp m where "selling_field ?E redmi_container = Inr sp"
    and "mrp_field ?E redmi_container = Inr m"
    and "dict_get p ''sellingPrice'' = map_option VInt sp"
    and "dict_get p ''mrp'' =
           (case m of None \<Rightarrow> None
            | Some x \<Rightarrow> if (case sp of None \<Rightarrow> 0 | Some s \<Rightarrow> s) < x then Some (VInt x) else None)"
    and d: "dict_get p ''discount'' =
           (if truthy (dict_get p ''mrp'') \<and> truthy (dict_get p ''sellingPrice'')
            then Some (VInt (discount_of ?E (get_int p ''mrp'' 0) (get_int p ''sellingPrice'' 0)))
            else None)"
    by (rule extract_fields_lookup)
  then have s: "dict_get p ''sellingPrice'' = Some (VInt 14999)"
    and m: "dict_get p ''mrp'' = None"
    by (auto simp: redmi_fields)
  from d m have "dict_get p ''discount'' = None" by simp
  with p s m have a: "map_option (\<lambda>p. (dict_get p ''sellingPrice'', dict_get p ''mrp'', dict_get p ''discount''))
     (extract_product_info ?E redmi_container (U ''redmi phone'')) = Some (Some (VInt 14999), None, None)"
    by simp
  have b: "NavigableString (8377 # U ''19,999'') \<in> set (descendants redmi_container)"
    by (simp add: redmi_container_def)
  have c: "parse_price ?E (8377 # U ''19,999'') = Inr (Some 19999)"
    by (simp add: parse_price_def py_int_def is_price_char_def is_decimal_def decimal_of_def
        digit_val_def)
  from a b c show ?thesis by simp
qed

section \<open>One handler for all fields\<close>

text \<open>
  Claim C4 as stated, that a failing extraction of one field does not abort the others,
  fails: the function has one handler around all its blocks. In the listing below the title,
  the selling price, the image and the link are all found, the rating text \<^verbatim>\<open>1.2.3\<close> makes
  \<^verbatim>\<open>float\<close> raise, and the container yields nothing.
\<close>

theorem rating_failure_aborts_counterexample:
  "title_field bad_rating_container = Some (U ''Redmi Note 12'') \<and>
   selling_field (sample_env redmi_page (\<lambda>page. Inr ok_response)) bad_rating_container
     = Inr (Some 14999) \<and>
   image_field bad_rating_container = Some (U ''https://www.flipkart.com/img/x.png'') \<and>
   url_field bad_rating_container = Some (U ''https://www.flipkart.com/redmi-note-12/p/itm1'') \<and>
   rating_field (sample_env redmi_page (\<lambda>page. Inr ok_response)) bad_rating_container
     = Inl ValueError \<and>
   extract_product_info (sample_env redmi_page (\<lambda>page. Inr ok_response)) bad_rating_container
     (U ''redmi phone'') = None"
proof -
  let ?E = "sample_env redmi_page (\<lambda>page. Inr ok_response)"
  have "\<exists>e. extract_fields ?E bad_rating_container (U ''redmi phone'') = Inl e"
    using extract_fields_raises [of ?E bad_rating_container "U ''redmi phone''"]
      bad_rating_fields(4) [of redmi_page "\<lambda>page. Inr ok_response"]
    by blast
  then have "extract_product_info ?E bad_rating_container (U ''redmi phone'') = None"
    by (auto simp: extract_product_info_def)
  then show ?thesis by (simp add: bad_rating_fields)
qed

text \<open>
  Claim C4, as amended. A field whose element is missing is left out and the other fields
  are extracted all the same: when no conversion raises, the dictionary holds under
  \<^verbatim>\<open>title\<close>, \<^verbatim>\<open>sellingPrice\<close>, \<^verbatim>\<open>imageUrl\<close>, \<^verbatim>\<open>url\<close>, \<^verbatim>\<open>flipkartUrl\<close> and \<^verbatim>\<open>rating\<close> exactly
  what the block of that field found, and nothing where it found nothing; \<^verbatim>\<open>mrp\<close> holds what
  its block found if that is greater than the selling price (greater than 0 if there is
  none). When a conversion raises (\<^verbatim>\<open>int\<close> for the selling price or the MRP, \<^verbatim>\<open>float\<close> for the
  rating), the handler around the whole function returns \<^verbatim>\<open>None\<close> for the container.
\<close>

theorem fields_independent_unless_raise:
  "(selling_field env container = Inr sp \<and> mrp_field env container = Inr m \<and>
    rating_field env container = Inr r \<longrightarrow>
      (\<exists>product. extract_fields env container query = Inr product \<and>
         dict_get product ''title'' = map_option VStr (title_field container) \<and>
         dict_get product ''sellingPrice'' = map_option VInt sp \<and>
         dict_get product ''mrp'' =
           (case m of None \<Rightarrow> None
            | Some x \<Rightarrow> if (case sp of None \<Rightarrow> 0 | Some s \<Rightarrow> s) < x then Some (VInt x) else None) \<and>
         dict_get product ''imageUrl'' = map_option VStr (image_field container) \<and>
         dict_get product ''url'' = map_option VStr (url_field container) \<and>
         dict_get product ''flipkartUrl'' = map_option VStr (url_field container) \<and>
         dict_get product ''rating'' = map_option VFloat r \<and>
         extract_product_info env container query =
           (if truthy (dict_get product ''title'') \<and> truthy (dict_get product ''sellingPrice'')
            then Some product else None))) \<and>
   ((\<exists>e. selling_field env container = Inl e \<or> mrp_field env container = Inl e \<or>
         rating_field env container = Inl e) \<longrightarrow>
      extract_product_info env container query = None)"
proof (intro conjI impI)
  assume f: "selling_field env container = Inr sp \<and> mrp_field env container = Inr m \<and>
    rating_field env container = Inr r"
  then obtain p where p: "extract_fields env container query = Inr p"
    using extract_fields_returns by blast
  then obtain sp' m' r' where "selling_field env container = Inr sp'"
    and "mrp_field env container = Inr m'" and "rating_field env container = Inr r'"
    and "dict_get p ''title'' = map_option VStr (title_field container)"
    and "dict_get p ''sellingPrice'' = map_option VInt sp'"
    and "dict_get p ''mrp'' =
           (case m' of None \<Rightarrow> None
            | Some x \<Rightarrow> if (case sp' of None \<Rightarrow> 0 | Some s \<Rightarrow> s) < x then Some (VInt x) else None)"
    and "dict_get p ''imageUrl'' = map_option VStr (image_field container)"
    and "dict_get p ''url'' = map_option VStr (url_field container)"
    and "dict_get p ''flipkartUrl'' = map_option VStr (url_field container)"
    and "dict_get p ''rating'' = map_option VFloat r'"
    by (rule extract_fields_lookup)
  with f p show "\<exists>product. extract_fields env container query = Inr product \<and>
         dict_get product ''title'' = map_option VStr (title_field container) \<and>
         dict_get product ''sellingPrice'' = map_option VInt sp \<and>
         dict_get product ''mrp'' =
           (case m of None \<Rightarrow> None
            | Some x \<Rightarrow> if (case sp of None \<Rightarrow> 0 | Some s \<Rightarrow> s) < x then Some (VInt x) else None) \<and>
         dict_get product ''imageUrl'' = map_option VStr (image_field container) \<and>
         dict_get product ''url'' = map_option VStr (url_field container) \<and>
         dict_get product ''flipkartUrl'' = map_option VStr (url_field container) \<and>
         dict_get product ''rating'' = map_option VFloat r \<and>
         extract_product_info env container query =
           (if truthy (dict_get product ''title'') \<and> truthy (dict_get product ''sellingPrice'')
            then Some product else None)"
    by (intro exI [of _ p]) (auto simp: extract_product_info_def)
next
  assume "\<exists>e. selling_field env container = Inl e \<or> mrp_field env container = Inl e \<or>
         rating_field env container = Inl e"
  then have "\<exists>e. extract_fields env container query = Inl e"
    using extract_fields_raises [of env container query] by blast
  then show "extract_product_info env container query = None"
    by (auto simp: extract_product_info_def)
qed

lemma struck_first_links:
  "image_field struck_first_container = Some (U ''https://www.flipkart.com/img/x.png'')"
  "url_field struck_first_container = None"
  by (simp_all add: struck_first_container_def image_field_def image_url_def url_field_def
      find_elem_def startswith_def)

theorem fields_independent_unless_raise_witness:
  "map_option
     (\<lambda>p. (dict_get p ''title'', dict_get p ''sellingPrice'', dict_get p ''mrp'',
           dict_get p ''imageUrl'', dict_get p ''url'', dict_get p ''rating''))
     (extract_product_info (sample_env redmi_page (\<lambda>page. Inr ok_response)) struck_first_container
        (U ''dell laptop''))
     = Some (Some (VStr (U ''Dell Laptop'')), Some (VInt 14999), Some (VInt 19999),
             Some (VStr (U ''https://www.flipkart.com/img/x.png'')), None, None) \<and>
   rating_field (sample_env redmi_page (\<lambda>page. Inr ok_response)) bad_rating_container
     = Inl ValueError \<and>
   extract_product_info (sample_env redmi_page (\<lambda>page. Inr ok_response)) bad_rating_container
     (U ''redmi phone'') = None"
proof -
  let ?E = "sample_env redmi_page (\<lambda>page. Inr ok_response)"
  have a: "map_option
     (\<lambda>p. (dict_get p ''title'', dict_get p ''sellingPrice'', dict_get p ''mrp'',
           dict_get p ''imageUrl'', dict_get p ''url'', dict_get p ''rating''))
     (extract_product_info ?E struck_first_container (U ''dell laptop''))
     = Some (Some (VStr (U ''Dell Laptop'')), Some (VInt 14999), Some (VInt 19999),
             Some (VStr (U ''https://www.flipkart.com/img/x.png'')), None, None)"
    using fields_independent_unless_raise
      [of ?E struck_first_container "Some 14999" "Some 19999" None "U ''dell laptop''"]
    by (auto simp: struck_first_fields struck_first_links)
  have b: "extract_product_info ?E bad_rating_container (U ''redmi phone'') = None"
    using fields_independent_unless_raise
      [of ?E bad_rating_container "Some 14999" "Some 14999" None "U ''redmi phone''"]
      bad_rating_fields(4) [of redmi_page "\<lambda>page. Inr ok_response"]
    by blast
  from a b show ?thesis by (simp add: bad_rating_fields)
qed

end
